theory Spec2Isabelle
  imports Main "HOL-Library.Sublist"
begin

section \<open>Python text primitives\<close>

text \<open>
  A Python \<^verbatim>\<open>str\<close> is modelled by the \<^typ>\<open>string\<close> of the bytes of its UTF-8
  encoding. Substring tests and splitting at separators agree with Python on every text
  (UTF-8 is self-synchronising). Case mapping and the whitespace class are modelled on the
  ASCII range, where they are exactly Python's; bytes above 127 are left alone, so the
  model is exact for ASCII text.
\<close>

definition is_space :: "char \<Rightarrow> bool" where
  \<comment> \<open>\<^verbatim>\<open>str.isspace\<close> and the regex class \<^verbatim>\<open>\s\<close>: TAB, LF, VT, FF, CR, FS, GS, RS, US, SPACE\<close>
  "is_space c = (let n = (of_char c :: nat) in (9 \<le> n \<and> n \<le> 13) \<or> (28 \<le> n \<and> n \<le> 32))"

definition is_lower :: "char \<Rightarrow> bool" where
  \<comment> \<open>the regex class \<^verbatim>\<open>[a-z]\<close>\<close>
  "is_lower c = (let n = (of_char c :: nat) in 97 \<le> n \<and> n \<le> 122)"

definition is_upper :: "char \<Rightarrow> bool" where
  "is_upper c = (let n = (of_char c :: nat) in 65 \<le> n \<and> n \<le> 90)"

definition is_digit :: "char \<Rightarrow> bool" where
  "is_digit c = (let n = (of_char c :: nat) in 48 \<le> n \<and> n \<le> 57)"

definition lower_char :: "char \<Rightarrow> char" where
  "lower_char c = (if is_upper c then char_of ((of_char c :: nat) + 32) else c)"

definition upper_char :: "char \<Rightarrow> char" where
  "upper_char c = (if is_lower c then char_of ((of_char c :: nat) - 32) else c)"

definition py_lower :: "string \<Rightarrow> string" where
  \<comment> \<open>\<^verbatim>\<open>s.lower()\<close>\<close>
  "py_lower s = map lower_char s"

definition py_upper :: "string \<Rightarrow> string" where
  \<comment> \<open>\<^verbatim>\<open>s.upper()\<close>\<close>
  "py_upper s = map upper_char s"

definition py_strip :: "string \<Rightarrow> string" where
  \<comment> \<open>\<^verbatim>\<open>s.strip()\<close>: leading and trailing whitespace removed\<close>
  "py_strip s = rev (dropWhile is_space (rev (dropWhile is_space s)))"

fun py_in :: "string \<Rightarrow> string \<Rightarrow> bool" where
  \<comment> \<open>\<^verbatim>\<open>k in text\<close>: \<open>k\<close> occurs as a substring of \<open>text\<close>\<close>
  "py_in k [] = (k = [])"
| "py_in k (c # cs) = (prefix k (c # cs) \<or> py_in k cs)"

section \<open>Category classifier\<close>

definition FINANCE_KEYWORDS :: "string list" where
  "FINANCE_KEYWORDS =
    [''hedge fund'', ''alternative investment'', ''asset management'',
     ''broker-dealer'', ''broker dealer'', ''investment manager'',
     ''private equity'', ''family office'', ''trading firm'', ''proprietary trading'']"

definition MSP_KEYWORDS :: "string list" where
  "MSP_KEYWORDS =
    [''managed services'', ''managed it'', ''outsourced'', ''24x7 support'',
     ''24/7 support'', ''service level agreement'', ''sla'', ''help desk'', ''monitoring'']"

definition MARKET_DATA_KEYWORDS :: "string list" where
  "MARKET_DATA_KEYWORDS =
    [''market data'', ''market-data'', ''data feeds'', ''entitlements'',
     ''exchange reporting'', ''vendor management'', ''dacs'', ''inventory'']"

definition TRADING_INFRA_KEYWORDS :: "string list" where
  "TRADING_INFRA_KEYWORDS =
    [''trading infrastructure'', ''low latency'', ''low-latency'', ''colocation'',
     ''proximity hosting'', ''exchange connectivity'', ''fix connectivity'']"

definition OMS_EMS_KEYWORDS :: "string list" where
  "OMS_EMS_KEYWORDS =
    [''oms'', ''order management system'', ''ems'', ''execution management system'',
     ''trading platform implementation'', ''trading system implementation'',
     ''fix onboarding'']"

definition REG_OPS_KEYWORDS :: "string list" where
  "REG_OPS_KEYWORDS =
    [''trade surveillance'', ''best execution'', ''best-execution'',
     ''outsourced compliance'', ''regulatory reporting'', ''finra'', ''sec rule'']"

definition hits :: "string list \<Rightarrow> string \<Rightarrow> int" where
  \<comment> \<open>\<^verbatim>\<open>sum(1 for k in KEYWORDS if k in text)\<close>\<close>
  "hits keywords text = int (length (filter (\<lambda>k. py_in k text) keywords))"

fun max_key :: "(string \<times> int) list \<Rightarrow> string \<times> int \<Rightarrow> string \<times> int" where
  \<comment> \<open>the loop of \<^verbatim>\<open>max(score, key=score.get)\<close>: a later entry replaces the best one
      only when its value is strictly greater, so the first maximum in insertion order wins\<close>
  "max_key [] best = best"
| "max_key (kv # kvs) best = max_key kvs (if snd best < snd kv then kv else best)"

definition score_get :: "(string \<times> int) list \<Rightarrow> string \<Rightarrow> int" where
  \<comment> \<open>\<^verbatim>\<open>score[cat]\<close>; every key looked up is one of the six keys of the dictionary\<close>
  "score_get score cat = the (map_of score cat)"

definition category_scores :: "string \<Rightarrow> (string \<times> int) list" where
  \<comment> \<open>the dictionary \<^verbatim>\<open>score\<close> after the six scoring rules, in insertion order\<close>
  "category_scores text =
    (let finance_hits = hits FINANCE_KEYWORDS text;
         msp_hits = hits MSP_KEYWORDS text;
         trading_hits = hits TRADING_INFRA_KEYWORDS text;
         md_hits = hits MARKET_DATA_KEYWORDS text;
         oms_hits = hits OMS_EMS_KEYWORDS text;
         reg_hits = hits REG_OPS_KEYWORDS text
     in [(''Financial MSP'',
            (if finance_hits > 0 \<and> msp_hits > 0 then 0 + (finance_hits * 3 + msp_hits * 2)
             else if finance_hits > 0 then 0 + finance_hits * 2
             else if msp_hits > 0 then 0 + msp_hits
             else 0)),
         (''Trading Infra MSP'', (if trading_hits > 0 then 0 + trading_hits * 3 else 0)),
         (''Market Data Ops'', (if md_hits > 0 then 0 + md_hits * 3 else 0)),
         (''OMS/EMS & FIX'',
            (if oms_hits \<ge> 2 then 0 + oms_hits * 3
             else if oms_hits = 1 \<and> (trading_hits > 0 \<or> md_hits > 0 \<or> py_in ''fx'' text)
               then 0 + 3
             else 0)),
         (''RegOps / Surveillance'', (if reg_hits > 0 then 0 + reg_hits * 3 else 0)),
         (''Generic IT'',
            (if msp_hits > 0 \<and> finance_hits = 0 \<and> trading_hits = 0 \<and> md_hits = 0
                \<and> oms_hits = 0 \<and> reg_hits = 0
             then 1 else 0))])"

definition classify_category :: "string \<Rightarrow> string" where
  "classify_category text =
    (let finance_hits = hits FINANCE_KEYWORDS text;
         msp_hits = hits MSP_KEYWORDS text;
         score = category_scores text;
         cat = fst (max_key (tl score) (hd score));
         cat = (if score_get score cat = 0 then ''Generic IT'' else cat);
         cat = (if finance_hits > 0 \<and> msp_hits > 0
                   \<and> score_get score ''Financial MSP'' \<ge> score_get score cat
                then ''Financial MSP'' else cat)
     in cat)"

section \<open>Candidate records\<close>

text \<open>
  One row of the tabular store: the nine columns written by every stage. The column
  \<^verbatim>\<open>Fit (Core/Stretch)\<close> is the field \<open>Fit\<close>.
\<close>

record row =
  Name :: string
  Website :: string
  HQ :: string
  Category :: string
  Fit :: string
  Notes :: string
  Source :: string
  Conference :: string
  Classification :: string

definition new_row :: "string \<Rightarrow> string \<Rightarrow> string \<Rightarrow> string \<Rightarrow> string \<Rightarrow> row" where
  \<comment> \<open>the dictionary literal with which every discovery stage creates a row\<close>
  "new_row name website notes source conference =
     \<lparr>Name = name, Website = website, HQ = [], Category = [], Fit = [], Notes = notes,
      Source = source, Conference = conference, Classification = []\<rparr>"

section \<open>Merging sources\<close>

text \<open>
  \<^verbatim>\<open>merge_raw_sources\<close> has two bodies: one on data frames, taken when the optional
  pandas import succeeded, and a pure-CSV one otherwise. An input file is the list of its
  rows as read (\<open>None\<close> when the file does not exist); the result is the list of rows
  written (\<open>None\<close> when the function returns without writing).
\<close>

definition website_norm :: "row \<Rightarrow> string" where
  \<comment> \<open>the column \<^verbatim>\<open>website_norm\<close>, and \<^verbatim>\<open>w\<close> of the CSV body: strip, then lower\<close>
  "website_norm r = py_lower (py_strip (Website r))"

fun drop_duplicates :: "(row \<Rightarrow> string) \<Rightarrow> string set \<Rightarrow> row list \<Rightarrow> row list" where
  \<comment> \<open>\<^verbatim>\<open>df.drop_duplicates(subset=[col])\<close>, which keeps the first row of every key\<close>
  "drop_duplicates key seen [] = []"
| "drop_duplicates key seen (r # rs) =
     (if key r \<in> seen then drop_duplicates key seen rs
      else r # drop_duplicates key (insert (key r) seen) rs)"

definition truncate_rows :: "int option \<Rightarrow> row list \<Rightarrow> row list" where
  \<comment> \<open>\<^verbatim>\<open>if max_total_rows is not None and max_total_rows > 0 and len(rows) > max_total_rows\<close>\<close>
  "truncate_rows max_total_rows rows =
    (case max_total_rows of
       None \<Rightarrow> rows
     | Some n \<Rightarrow> if n > 0 \<and> int (length rows) > n then take (nat n) rows else rows)"

definition merge_pandas :: "row list option \<Rightarrow> row list option \<Rightarrow> int option \<Rightarrow> row list option" where
  "merge_pandas search_csv conf_csv max_total_rows =
    (let frames = List.map_filter (\<lambda>f. f) [search_csv, conf_csv]
     in if frames = [] then None
        else
          let merged = concat frames;
              with_site = filter (\<lambda>r. website_norm r \<noteq> []) merged;
              without_site = filter (\<lambda>r. website_norm r = []) merged;
              with_site = drop_duplicates website_norm {} with_site;
              without_site = drop_duplicates Name {} without_site;
              merged = with_site @ without_site
          in Some (truncate_rows max_total_rows merged))"

fun load :: "row list \<Rightarrow> string set \<times> row list \<Rightarrow> string set \<times> row list" where
  \<comment> \<open>the reader loop of \<^verbatim>\<open>load\<close>, on the state \<^verbatim>\<open>(websites_seen, all_rows)\<close>\<close>
  "load [] st = st"
| "load (r # rs) (websites_seen, all_rows) =
     (let w = py_lower (py_strip (Website r))
      in if w = [] then load rs (websites_seen, all_rows)
         else if w \<in> websites_seen then load rs (websites_seen, all_rows)
         else load rs (insert w websites_seen, all_rows @ [r]))"

definition load_path :: "row list option \<Rightarrow> string set \<times> row list \<Rightarrow> string set \<times> row list" where
  \<comment> \<open>a missing file raises \<^verbatim>\<open>FileNotFoundError\<close>, which \<^verbatim>\<open>load\<close> catches\<close>
  "load_path path st = (case path of None \<Rightarrow> st | Some rows \<Rightarrow> load rows st)"

definition merge_csv :: "row list option \<Rightarrow> row list option \<Rightarrow> int option \<Rightarrow> row list option" where
  "merge_csv search_csv conf_csv max_total_rows =
    (let st = load_path conf_csv (load_path search_csv ({}, []));
         all_rows = snd st
     in if all_rows = [] then None else Some (truncate_rows max_total_rows all_rows))"

definition merge_raw_sources ::
  "bool \<Rightarrow> row list option \<Rightarrow> row list option \<Rightarrow> int option \<Rightarrow> row list option" where
  \<comment> \<open>the first argument is \<^verbatim>\<open>pd is not None\<close>\<close>
  "merge_raw_sources pd search_csv conf_csv max_total_rows =
    (if pd then merge_pandas search_csv conf_csv max_total_rows
     else merge_csv search_csv conf_csv max_total_rows)"

definition read_rows :: "row list option \<Rightarrow> row list option \<Rightarrow> row list" where
  \<comment> \<open>the rows of the inputs that exist, in the order in which the merge scans them\<close>
  "read_rows search_csv conf_csv = concat (List.map_filter (\<lambda>f. f) [search_csv, conf_csv])"

text \<open>
  The two halves of the data-frame body, as functions of the rows read: the rows with a
  website, first of each normalised website, and the rows without, first of each name.
\<close>

definition with_site_rows :: "row list \<Rightarrow> row list" where
  "with_site_rows rows = drop_duplicates website_norm {} (filter (\<lambda>r. website_norm r \<noteq> []) rows)"

definition without_site_rows :: "row list \<Rightarrow> row list" where
  "without_site_rows rows = drop_duplicates Name {} (filter (\<lambda>r. website_norm r = []) rows)"

section \<open>More text primitives\<close>

fun py_split :: "char \<Rightarrow> string \<Rightarrow> string list" where
  \<comment> \<open>\<^verbatim>\<open>s.split(sep)\<close> for a separator of one character; the result is never empty\<close>
  "py_split sep [] = [[]]"
| "py_split sep (c # cs) =
     (if c = sep then [] # py_split sep cs
      else (case py_split sep cs of p # ps \<Rightarrow> (c # p) # ps | [] \<Rightarrow> [[c]]))"

fun split_ws :: "string \<Rightarrow> string \<Rightarrow> string list" where
  \<comment> \<open>\<^verbatim>\<open>s.split()\<close>: the maximal runs of non-whitespace; the first argument is the run
      being read\<close>
  "split_ws cur [] = (if cur = [] then [] else [cur])"
| "split_ws cur (c # cs) =
     (if is_space c then (if cur = [] then split_ws [] cs else cur # split_ws [] cs)
      else split_ws (cur @ [c]) cs)"

fun title_from :: "bool \<Rightarrow> string \<Rightarrow> string" where
  \<comment> \<open>the loop of \<^verbatim>\<open>str.title\<close>; the flag says that the previous character is a letter\<close>
  "title_from prev [] = []"
| "title_from prev (c # cs) =
     (if is_lower c \<or> is_upper c
      then (if prev then lower_char c else upper_char c) # title_from True cs
      else c # title_from False cs)"

definition py_title :: "string \<Rightarrow> string" where
  \<comment> \<open>\<^verbatim>\<open>s.title()\<close>\<close>
  "py_title s = title_from False s"

fun replace_from :: "string \<Rightarrow> string \<Rightarrow> nat \<Rightarrow> string \<Rightarrow> string" where
  \<comment> \<open>\<^verbatim>\<open>s.replace(old, new)\<close> for a non-empty \<open>old\<close>: occurrences are replaced from the left
      and do not overlap; the counter is the number of characters of a replaced occurrence
      still to be skipped\<close>
  "replace_from old new skip [] = []"
| "replace_from old new skip (c # cs) =
     (if 0 < skip then replace_from old new (skip - 1) cs
      else if prefix old (c # cs) then new @ replace_from old new (length old - 1) cs
      else c # replace_from old new 0 cs)"

definition py_replace :: "string \<Rightarrow> string \<Rightarrow> string \<Rightarrow> string" where
  "py_replace old new s = replace_from old new 0 s"

definition domain_from_url :: "string \<Rightarrow> string" where
  \<comment> \<open>\<^verbatim>\<open>url.split("/")[2].lower()\<close>, and \<^verbatim>\<open>url.lower()\<close> on \<^verbatim>\<open>IndexError\<close>\<close>
  "domain_from_url url =
    (let parts = py_split CHR ''/'' url
     in if 2 < length parts then py_lower (parts ! 2) else py_lower url)"

section \<open>Headquarters resolver\<close>

text \<open>
  The three explicit patterns are a literal phrase followed by the group
  \<^verbatim>\<open>([a-z ,]+,\s*[a-z]{2})\<close>. \<^verbatim>\<open>re.search\<close> returns the match at the leftmost
  position where the pattern matches; there the greedy \<^verbatim>\<open>[a-z ,]+\<close> is given back one
  character at a time until the rest of the pattern matches, so the group ends at the
  last comma of the run of \<^verbatim>\<open>[a-z ,]\<close> that is followed by optional whitespace and two
  letters.
\<close>

definition is_loc_char :: "char \<Rightarrow> bool" where
  \<comment> \<open>the class \<^verbatim>\<open>[a-z ,]\<close>\<close>
  "is_loc_char c = (is_lower c \<or> c = CHR '' '' \<or> c = CHR '','')"

definition region_len :: "string \<Rightarrow> nat option" where
  \<comment> \<open>the length of the match of \<^verbatim>\<open>\s*[a-z]{2}\<close> at the start of \<open>s\<close>\<close>
  "region_len s =
    (case dropWhile is_space s of
       a # b # _ \<Rightarrow>
         if is_lower a \<and> is_lower b then Some (length (takeWhile is_space s) + 2) else None
     | _ \<Rightarrow> None)"

definition match_loc :: "string \<Rightarrow> string option" where
  \<comment> \<open>group 1 of \<^verbatim>\<open>([a-z ,]+,\s*[a-z]{2})\<close> matched at the start of \<open>s\<close>\<close>
  "match_loc s =
    (let n = length (takeWhile is_loc_char s);
         commas = filter (\<lambda>j. s ! j = CHR '','' \<and> region_len (drop (Suc j) s) \<noteq> None)
                    (rev [1..<n])
     in case commas of
          [] \<Rightarrow> None
        | j # _ \<Rightarrow> Some (take (Suc j + the (region_len (drop (Suc j) s))) s))"

fun hq_search :: "string \<Rightarrow> string \<Rightarrow> string option" where
  \<comment> \<open>\<^verbatim>\<open>re.search(pat, t)\<close> for the pattern with the literal phrase \<open>lit\<close>: group 1 of
      the leftmost match\<close>
  "hq_search lit [] = None"
| "hq_search lit (c # cs) =
     (case (if prefix lit (c # cs) then match_loc (drop (length lit) (c # cs)) else None) of
        Some loc \<Rightarrow> Some loc
      | None \<Rightarrow> hq_search lit cs)"

definition hq_patterns :: "string list" where
  \<comment> \<open>the literal phrases of \<^verbatim>\<open>hq_patterns\<close>, in order\<close>
  "hq_patterns = [''headquartered in '', ''based in '', ''headquarters in '']"

definition hq_format :: "string \<Rightarrow> string" where
  \<comment> \<open>what the loop returns for the group \<open>g\<close> of a match\<close>
  "hq_format g =
    (let loc = py_strip g;
         parts = map py_strip (py_split CHR '','' loc)
     in if length parts = 2 then py_title (parts ! 0) @ '', '' @ py_upper (parts ! 1)
        else py_title loc)"

fun hq_explicit :: "string list \<Rightarrow> string \<Rightarrow> string option" where
  \<comment> \<open>the loop over \<^verbatim>\<open>hq_patterns\<close>: the first pattern that matches returns\<close>
  "hq_explicit [] t = None"
| "hq_explicit (pat # pats) t =
     (case hq_search pat t of
        Some g \<Rightarrow> Some (hq_format g)
      | None \<Rightarrow> hq_explicit pats t)"

definition hub_map :: "(string list \<times> string) list" where
  "hub_map =
    [([''new york'', ''nyc''], ''New York, NY''),
     ([''brooklyn''], ''Brooklyn, NY''),
     ([''jersey city''], ''Jersey City, NJ''),
     ([''stamford'', ''greenwich'', ''norwalk''], ''Fairfield County, CT''),
     ([''boston''], ''Boston, MA''),
     ([''philadelphia''], ''Philadelphia, PA''),
     ([''chicago''], ''Chicago, IL''),
     ([''miami'', ''orlando'', ''tampa''], ''Florida''),
     ([''dallas'', ''austin'', ''houston''], ''Texas''),
     ([''san francisco''], ''San Francisco, CA''),
     ([''los angeles''], ''Los Angeles, CA''),
     ([''san jose'', ''palo alto'', ''silicon valley''], ''Bay Area, CA''),
     ([''seattle''], ''Seattle, WA''),
     ([''denver'', ''boulder''], ''Colorado''),
     ([''charlotte''], ''Charlotte, NC''),
     ([''washington dc'', ''washington d.c.'', ''washington, dc''], ''Washington, DC''),
     ([''london''], ''London, UK''),
     ([''toronto''], ''Toronto, Canada''),
     ([''montreal''], ''Montreal, Canada''),
     ([''vancouver''], ''Vancouver, Canada''),
     ([''singapore''], ''Singapore''),
     ([''hong kong''], ''Hong Kong'')]"

fun hub_lookup :: "(string list \<times> string) list \<Rightarrow> string \<Rightarrow> string option" where
  \<comment> \<open>the loop over \<^verbatim>\<open>hub_map\<close>\<close>
  "hub_lookup [] t = None"
| "hub_lookup ((keys, label) # hubs) t =
     (if list_ex (\<lambda>k. py_in k t) keys then Some label else hub_lookup hubs t)"

text \<open>
  The generic pattern is
  \<^verbatim>\<open>\b([a-z][a-z .]{2,40}),\s*(al|ak|...|wy)(?:\s+\d{5})?\b\<close>. A comma is not in the
  class \<^verbatim>\<open>[a-z .]\<close>, so the city group is the first letter and the whole run of the class
  after it, which must have 2 to 40 characters and be followed by the comma. The optional
  ZIP code starts with whitespace, so the pattern matches with it only if it matches
  without it: the state must be followed by the end of the text or by a character that is
  not a word character.
\<close>

definition is_word :: "char \<Rightarrow> bool" where
  \<comment> \<open>the class \<^verbatim>\<open>\w\<close>\<close>
  "is_word c = (is_lower c \<or> is_upper c \<or> is_digit c \<or> c = CHR ''_'')"

definition is_city_char :: "char \<Rightarrow> bool" where
  \<comment> \<open>the class \<^verbatim>\<open>[a-z .]\<close>\<close>
  "is_city_char c = (is_lower c \<or> c = CHR '' '' \<or> c = CHR ''.'')"

definition states :: "string list" where
  "states =
    [''al'', ''ak'', ''az'', ''ar'', ''ca'', ''co'', ''ct'', ''de'', ''fl'', ''ga'', ''hi'',
     ''id'', ''il'', ''in'', ''ia'', ''ks'', ''ky'', ''la'', ''me'', ''md'', ''ma'', ''mi'',
     ''mn'', ''ms'', ''mo'', ''mt'', ''ne'', ''nv'', ''nh'', ''nj'', ''nm'', ''ny'', ''nc'',
     ''nd'', ''oh'', ''ok'', ''or'', ''pa'', ''ri'', ''sc'', ''sd'', ''tn'', ''tx'', ''ut'',
     ''vt'', ''va'', ''wa'', ''wv'', ''wi'', ''wy'']"

definition match_generic_us :: "string \<Rightarrow> (string \<times> string) option" where
  \<comment> \<open>groups 1 and 2 of the generic pattern matched at the start of \<open>s\<close>, which is at a
      word boundary\<close>
  "match_generic_us s =
    (case s of
       [] \<Rightarrow> None
     | c # rest \<Rightarrow>
         if \<not> is_lower c then None
         else
           let m = length (takeWhile is_city_char rest)
           in if m < 2 \<or> 40 < m then None
              else
                (case drop m rest of
                   [] \<Rightarrow> None
                 | d # after \<Rightarrow>
                     if d \<noteq> CHR '','' then None
                     else
                       (case dropWhile is_space after of
                          a # b # tail \<Rightarrow>
                            if List.member states [a, b]
                               \<and> (case tail of [] \<Rightarrow> True | e # _ \<Rightarrow> \<not> is_word e)
                            then Some (c # take m rest, [a, b])
                            else None
                        | _ \<Rightarrow> None)))"

fun generic_us_search :: "bool \<Rightarrow> string \<Rightarrow> (string \<times> string) option" where
  \<comment> \<open>\<^verbatim>\<open>re.search(generic_us, t)\<close>; the flag says that the previous character is a
      word character, so that \<^verbatim>\<open>\b\<close> fails here\<close>
  "generic_us_search prev_word [] = None"
| "generic_us_search prev_word (c # cs) =
     (case (if prev_word then None else match_generic_us (c # cs)) of
        Some m \<Rightarrow> Some m
      | None \<Rightarrow> generic_us_search (is_word c) cs)"

definition guess_hq :: "string \<Rightarrow> string" where
  "guess_hq text =
    (let t = py_lower text
     in case hq_explicit hq_patterns t of
          Some hq \<Rightarrow> hq
        | None \<Rightarrow>
            (case hub_lookup hub_map t of
               Some label \<Rightarrow> label
             | None \<Rightarrow>
                 (case generic_us_search False t of
                    Some (city, st) \<Rightarrow> py_title (py_strip city) @ '', '' @ py_upper st
                  | None \<Rightarrow> [])))"

section \<open>Fit, classification and the enricher\<close>

definition KNOWN_FINANCIAL_MSPS :: "string set" where
  "KNOWN_FINANCIAL_MSPS =
    {''ceutechnologies.com'', ''omegasystemscorp.com'', ''thrivenextgen.com'',
     ''aag-it.com'', ''silverlinetech.com'', ''eze-castle.com''}"

definition KNOWN_COMP_NAMES :: "string set" where
  "KNOWN_COMP_NAMES = {''bloomberg'', ''eurex'', ''cme group''}"

definition classify_fit :: "string \<Rightarrow> string" where
  "classify_fit category = (if category = ''Generic IT'' then ''Stretch'' else ''Core'')"

definition core_lanes :: "string set" where
  "core_lanes =
    {''Financial MSP'', ''Trading Infra MSP'', ''Market Data Ops'', ''OMS/EMS & FIX'',
     ''RegOps / Surveillance''}"

definition classify_firm :: "row \<Rightarrow> string" where
  "classify_firm row =
    (if Fit row = ''Core'' \<and> Category row \<in> core_lanes
     then ''Potential acquisition target (near-term)''
     else ''Pattern / Comp / Future Partner'')"

definition normalize_hq :: "string \<Rightarrow> string" where
  "normalize_hq hq0 =
    (if hq0 = [] then []
     else
       let hq = py_strip hq0;
           hq = py_replace ''uk'' ''UK'' (py_replace ''Uk'' ''UK'' hq);
           parts = map py_strip (py_split CHR '','' hq)
       in if length parts = 2 then py_title (parts ! 0) @ '', '' @ py_upper (parts ! 1)
          else py_title hq)"

text \<open>
  The page fetcher \<^verbatim>\<open>fetch_site_text\<close> is a parameter: it maps a URL to the lower-cased
  text of the page, and to the empty text when the request fails.
\<close>

definition enrich_row :: "(string \<Rightarrow> string) \<Rightarrow> row \<Rightarrow> row option" where
  \<comment> \<open>the body of the reader loop of \<^verbatim>\<open>enrich\<close>: \<open>None\<close> when the row is skipped
      (\<^verbatim>\<open>continue\<close>), the row appended to \<^verbatim>\<open>rows_out\<close> otherwise\<close>
  "enrich_row fetch_site_text row =
    (let url = py_strip (Website row)
     in if url = [] then None
        else
          let domain = domain_from_url url;
              text = fetch_site_text url;
              category = classify_category text;
              fit = classify_fit category;
              hq = py_strip (HQ row);
              hq = (if hq = []
                    then (let hq_guess = guess_hq text in if hq_guess \<noteq> [] then hq_guess else hq)
                    else hq);
              category = (if domain \<in> KNOWN_FINANCIAL_MSPS then ''Financial MSP'' else category);
              fit = (if domain \<in> KNOWN_FINANCIAL_MSPS then ''Core'' else fit);
              row = row\<lparr>Category := category\<rparr>;
              row = row\<lparr>Fit := fit\<rparr>;
              row = row\<lparr>HQ := normalize_hq hq\<rparr>;
              name_l = py_lower (py_strip (Name row));
              row = (if name_l \<in> KNOWN_COMP_NAMES
                     then row\<lparr>Classification := ''Pattern / Comp / Future Partner''\<rparr>
                     else row\<lparr>Classification := classify_firm row\<rparr>)
          in Some row)"

fun enrich_loop :: "(string \<Rightarrow> string) \<Rightarrow> row list \<Rightarrow> row list \<Rightarrow> row list" where
  \<comment> \<open>the reader loop; the last argument is \<^verbatim>\<open>rows_out\<close>\<close>
  "enrich_loop fetch_site_text [] rows_out = rows_out"
| "enrich_loop fetch_site_text (row # rows) rows_out =
     (case enrich_row fetch_site_text row of
        None \<Rightarrow> enrich_loop fetch_site_text rows rows_out
      | Some row' \<Rightarrow> enrich_loop fetch_site_text rows (rows_out @ [row']))"

definition enrich :: "(string \<Rightarrow> string) \<Rightarrow> row list \<Rightarrow> row list option" where
  \<comment> \<open>the rows written to the output file; \<open>None\<close> when there are none and nothing is
      written\<close>
  "enrich fetch_site_text input_rows =
    (let rows_out = enrich_loop fetch_site_text input_rows []
     in if rows_out = [] then None else Some rows_out)"

section \<open>Name cleaner\<close>

definition en_dash :: string where
  \<comment> \<open>U+2013 in UTF-8\<close>
  "en_dash = [CHR 0xE2, CHR 0x80, CHR 0x93]"

definition em_dash :: string where
  \<comment> \<open>U+2014 in UTF-8\<close>
  "em_dash = [CHR 0xE2, CHR 0x80, CHR 0x94]"

definition separators :: "string list" where
  "separators = [''|'', en_dash, em_dash, ''-'', '':'']"

fun match_sep :: "string list \<Rightarrow> string \<Rightarrow> string option" where
  \<comment> \<open>the alternation of the separators at the start of \<open>s\<close>: what follows the first
      alternative that matches\<close>
  "match_sep [] s = None"
| "match_sep (sep # seps) s =
     (if prefix sep s then Some (drop (length sep) s) else match_sep seps s)"

lemma match_sep_shorter:
  "match_sep seps s = Some rest \<Longrightarrow> [] \<notin> set seps \<Longrightarrow> length rest < length s"
  by (induction seps) (auto split: if_splits simp: prefix_def)

lemma separators_nonempty: "[] \<notin> set separators"
  by (simp add: separators_def en_dash_def em_dash_def)

function re_split :: "string \<Rightarrow> string \<Rightarrow> string list" where
  \<comment> \<open>\<^verbatim>\<open>re.split(r"\s*(?:\||...|:)\s*", title)\<close>; the first argument is the piece being
      read. The pattern matches at a position when a separator follows the whitespace
      there, and the match takes the whitespace after the separator too\<close>
  "re_split cur s =
     (case match_sep separators (dropWhile is_space s) of
        Some rest \<Rightarrow> cur # re_split [] (dropWhile is_space rest)
      | None \<Rightarrow> (case s of [] \<Rightarrow> [cur] | c # cs \<Rightarrow> re_split (cur @ [c]) cs))"
  by pat_completeness auto
termination
proof (relation "measure (\<lambda>(cur, s). length s)")
  show "wf (measure (\<lambda>(cur, s). length s))"
    by simp
next
  fix cur s :: string and rest :: string
  assume "match_sep separators (dropWhile is_space s) = Some rest"
  then have "length rest < length (dropWhile is_space s)"
    by (rule match_sep_shorter) (rule separators_nonempty)
  moreover have "length (dropWhile is_space rest) \<le> length rest"
    by (rule length_dropWhile_le)
  moreover have "length (dropWhile is_space s) \<le> length s"
    by (rule length_dropWhile_le)
  ultimately show "(([], dropWhile is_space rest), (cur, s)) \<in> measure (\<lambda>(cur, s). length s)"
    by simp
next
  fix cur s :: string and c :: char and cs :: string
  assume "s = c # cs"
  then show "((cur @ [c], cs), (cur, s)) \<in> measure (\<lambda>(cur, s). length s)"
    by simp
qed

definition marketing_words :: "string list" where
  "marketing_words =
    [''managed'', ''services'', ''service'', ''cloud'', ''it'', ''support'', ''cybersecurity'',
     ''security'', ''hedge'', ''fund'', ''trading'', ''infrastructure'', ''platform'',
     ''managed services'', ''consulting'', ''implementation'', ''solutions'']"

definition looks_like_marketing :: "string \<Rightarrow> bool" where
  "looks_like_marketing text =
    (let lower = py_lower text in list_ex (\<lambda>word. py_in word lower) marketing_words)"

definition clean_result_name :: "string option \<Rightarrow> string \<Rightarrow> string" where
  \<comment> \<open>the title of a search result may be missing (\<^verbatim>\<open>r.get("title")\<close> is \<^verbatim>\<open>None\<close>)\<close>
  "clean_result_name title_opt domain_fallback =
    (case title_opt of
       None \<Rightarrow> domain_fallback
     | Some title \<Rightarrow>
         if title = [] then domain_fallback
         else
           let parts = re_split [] title;
               parts = map py_strip (filter (\<lambda>p. py_strip p \<noteq> []) parts)
           in if parts = []
              then (if py_strip title \<noteq> [] then py_strip title else domain_fallback)
              else
                let base = hd parts;
                    brand = (if 1 < length parts then last parts else [])
                in if brand \<noteq> [] \<and> length (split_ws [] brand) \<le> 6
                      \<and> \<not> looks_like_marketing brand
                   then brand
                   else if brand \<noteq> [] \<and> looks_like_marketing base
                      \<and> \<not> looks_like_marketing brand
                   then brand
                   else if base \<noteq> [] then base else domain_fallback)"

section \<open>Discovery by web search\<close>

definition SEARCH_QUERIES :: "string list" where
  "SEARCH_QUERIES =
    [''managed IT services for hedge funds'',
     ''hedge fund MSP New York'',
     ''hedge fund IT support NYC'',
     ''IT managed services for investment management firms'',
     ''managed IT services for broker dealers'',
     ''MSP for alternative investment firms'',
     ''MSP for asset management industry'',
     ''IT services for private equity firms'',
     ''\"market data\" \"managed services\"'',
     ''\"market data operations\" consulting'',
     ''\"market data administration\" services'',
     ''\"market data\" \"vendor management\" firm'',
     ''\"market data\" \"exchange reporting\" services'',
     ''\"market data\" cost optimization consultancy'',
     ''\"market data\" inventory management consulting'',
     ''\"trading infrastructure\" \"managed services\"'',
     ''\"low latency\" \"trading\" \"managed\"'',
     ''\"ultra low latency\" \"trading\" \"infrastructure\"'',
     ''\"exchange connectivity\" \"managed\"'',
     ''\"colocation\" \"trading\" \"managed services\"'',
     ''\"OMS implementation\" buy side consulting'',
     ''\"EMS implementation\" trading'',
     ''\"FIX connectivity\" consulting firm'',
     ''\"FIX onboarding\" services'',
     ''\"trading platform\" implementation consulting'',
     ''\"order management system\" integration partner'',
     ''\"outsourced trade surveillance\"'',
     ''\"managed\" \"trade surveillance\" services'',
     ''\"outsourced compliance\" \"broker dealer\"'',
     ''\"outsourced CCO\" services'',
     ''\"best execution\" \"outsourced\" testing'',
     ''\"regulatory reporting\" managed services'']"

text \<open>
  One result of the search provider: the keys \<^verbatim>\<open>url\<close> and \<^verbatim>\<open>title\<close> may be missing.
  The provider \<^verbatim>\<open>search_web\<close> is a parameter; \<open>None\<close> is a call that raises.
\<close>

record search_result =
  res_url :: "string option"
  res_title :: "string option"
  res_description :: string

text \<open>
  The state of \<^verbatim>\<open>run_search_discovery\<close>: its three variables (\<open>search_rows\<close> is
  \<^verbatim>\<open>rows\<close>), and the queries it has started (the lines \<^verbatim>\<open>[SEARCH] Query: ...\<close> that it prints).
\<close>

record search_state =
  seen_domains :: "string set"
  search_rows :: "row list"
  total_rows :: int
  queried :: "string list"

definition reached :: "int option \<Rightarrow> int \<Rightarrow> bool" where
  \<comment> \<open>\<^verbatim>\<open>max_rows and n >= max_rows\<close>: no limit when \<^verbatim>\<open>max_rows\<close> is \<^verbatim>\<open>None\<close> or 0\<close>
  "reached max_rows n = (case max_rows of None \<Rightarrow> False | Some m \<Rightarrow> m \<noteq> 0 \<and> m \<le> n)"

definition skip_domains :: "string list" where
  "skip_domains =
    [''linkedin.com'', ''indeed.com'', ''glassdoor.com'', ''facebook.com'',
     ''twitter.com'', ''youtube.com'', ''wikipedia.org'']"

fun scan_results ::
  "int option \<Rightarrow> string \<Rightarrow> search_result list \<Rightarrow> search_state \<Rightarrow> search_state" where
  \<comment> \<open>the loop over the results of the query \<open>q\<close>; it returns where the source breaks\<close>
  "scan_results max_rows q [] st = st"
| "scan_results max_rows q (r # rs) st =
     (case res_url r of
        None \<Rightarrow> scan_results max_rows q rs st
      | Some u \<Rightarrow>
          if u = [] then scan_results max_rows q rs st
          else
            let domain = domain_from_url u;
                name = clean_result_name (res_title r) domain;
                snippet = res_description r
            in if list_ex (\<lambda>skip. py_in skip domain) skip_domains
               then scan_results max_rows q rs st
               else if domain \<in> seen_domains st then scan_results max_rows q rs st
               else
                 let st' = st\<lparr>seen_domains := insert domain (seen_domains st),
                              total_rows := total_rows st + 1,
                              search_rows := search_rows st @
                                [new_row (if name \<noteq> [] then name else domain)
                                   (''https://'' @ domain) snippet (''search:'' @ q) []]\<rparr>
                 in if reached max_rows (total_rows st') then st'
                    else scan_results max_rows q rs st')"

fun search_loop ::
  "(string \<Rightarrow> search_result list option) \<Rightarrow> int option \<Rightarrow> string list
     \<Rightarrow> search_state \<Rightarrow> search_state" where
  \<comment> \<open>the loop over the queries: a call that raises is caught and the loop continues
      with the next query\<close>
  "search_loop search_web max_rows [] st = st"
| "search_loop search_web max_rows (q # qs) st =
     (let st = st\<lparr>queried := queried st @ [q]\<rparr>
      in case search_web q of
           None \<Rightarrow> search_loop search_web max_rows qs st
         | Some results \<Rightarrow>
             let st' = scan_results max_rows q results st
             in if reached max_rows (total_rows st') then st'
                else search_loop search_web max_rows qs st')"

definition run_search_discovery ::
  "(string \<Rightarrow> search_result list option) \<Rightarrow> int option \<Rightarrow> row list option" where
  \<comment> \<open>the rows written; \<open>None\<close> when no row was discovered and nothing is written\<close>
  "run_search_discovery search_web max_rows =
    (let st = search_loop search_web max_rows SEARCH_QUERIES
                \<lparr>seen_domains = {}, search_rows = [], total_rows = 0, queried = []\<rparr>
     in if search_rows st = [] then None else Some (search_rows st))"

section \<open>Discovery from conference listings\<close>

text \<open>
  A conference configuration holds its parser. The two parsers read HTML with an external
  library and are parameters, as is the page fetcher \<^verbatim>\<open>fetch_html\<close>; \<open>None\<close> is a call
  that raises.
\<close>

record conference_config =
  conf_name :: string
  conf_url :: string
  parser :: "string \<Rightarrow> string \<Rightarrow> row list option"

definition conferences ::
  "(string \<Rightarrow> string \<Rightarrow> row list option) \<Rightarrow> (string \<Rightarrow> string \<Rightarrow> row list option)
     \<Rightarrow> conference_config list" where
  "conferences parse_fia_expo parse_tradetech_fx =
    [\<lparr>conf_name = ''FIA_Expo_2024'',
      conf_url = ''https://s7.goeshow.com/fia/expo/2024/sponsor_exhibitor_list.cfm'',
      parser = parse_fia_expo\<rparr>,
     \<lparr>conf_name = ''TradeTech_FX_USA_2025'',
      conf_url = ''https://tradetechfxus.wbresearch.com/sponsors/2025'',
      parser = parse_tradetech_fx\<rparr>]"

definition scrape_one :: "(string \<Rightarrow> string option) \<Rightarrow> conference_config \<Rightarrow> row list option" where
  \<comment> \<open>the two calls inside \<^verbatim>\<open>try\<close>: \<open>None\<close> when either raises\<close>
  "scrape_one fetch_html conf =
    (case fetch_html (conf_url conf) of
       None \<Rightarrow> None
     | Some html \<Rightarrow> parser conf html (conf_name conf))"

fun conf_loop ::
  "(string \<Rightarrow> string option) \<Rightarrow> int option \<Rightarrow> conference_config list
     \<Rightarrow> row list \<times> string list \<Rightarrow> row list \<times> string list" where
  \<comment> \<open>the loop over the conferences, on \<^verbatim>\<open>all_rows\<close> and the names of the conferences
      started (the lines \<^verbatim>\<open>[CONF] Scraping ...\<close>)\<close>
  "conf_loop fetch_html max_rows [] st = st"
| "conf_loop fetch_html max_rows (conf # confs) (all_rows, started) =
     (let started = started @ [conf_name conf]
      in case scrape_one fetch_html conf of
           None \<Rightarrow>
             if reached max_rows (int (length all_rows)) then (all_rows, started)
             else conf_loop fetch_html max_rows confs (all_rows, started)
         | Some rows \<Rightarrow>
             let all_rows = all_rows @ rows
             in if reached max_rows (int (length all_rows)) then (all_rows, started)
                else conf_loop fetch_html max_rows confs (all_rows, started))"

definition slice_to :: "int \<Rightarrow> 'a list \<Rightarrow> 'a list" where
  \<comment> \<open>\<^verbatim>\<open>xs[:n]\<close>; a negative \<open>n\<close> counts from the end\<close>
  "slice_to n xs = (if 0 \<le> n then take (nat n) xs else take (nat (int (length xs) + n)) xs)"

definition run_conference_scrape ::
  "(string \<Rightarrow> string option) \<Rightarrow> conference_config list \<Rightarrow> int option \<Rightarrow> row list option" where
  \<comment> \<open>the rows written for the list \<^verbatim>\<open>conferences\<close>; \<open>None\<close> when nothing is written\<close>
  "run_conference_scrape fetch_html confs max_rows =
    (let all_rows = fst (conf_loop fetch_html max_rows confs ([], []));
         all_rows = (case max_rows of
                       None \<Rightarrow> all_rows
                     | Some m \<Rightarrow>
                         if m \<noteq> 0 \<and> m < int (length all_rows) then slice_to m all_rows
                         else all_rows)
     in if all_rows = [] then None else Some all_rows)"

section \<open>Auxiliary notions for the runners\<close>

text \<open>
  Notions used to state properties of the two runners: the three variables of the search
  runner without the list of started queries, the update of the state by a result that is
  kept, and the test of a result that is skipped.
\<close>

definition search_vars :: "search_state \<Rightarrow> string set \<times> row list \<times> int" where
  "search_vars st = (seen_domains st, search_rows st, total_rows st)"

definition add_result :: "string \<Rightarrow> search_result \<Rightarrow> string \<Rightarrow> search_state \<Rightarrow> search_state" where
  "add_result q r u st =
    (let domain = domain_from_url u;
         name = clean_result_name (res_title r) domain
     in st\<lparr>seen_domains := insert domain (seen_domains st),
           total_rows := total_rows st + 1,
           search_rows := search_rows st @
             [new_row (if name \<noteq> [] then name else domain)
                (''https://'' @ domain) (res_description r) (''search:'' @ q) []]\<rparr>)"

definition skipped :: "search_result \<Rightarrow> search_state \<Rightarrow> bool" where
  "skipped r st =
    (case res_url r of
       None \<Rightarrow> True
     | Some u \<Rightarrow> u = [] \<or> list_ex (\<lambda>skip. py_in skip (domain_from_url u)) skip_domains
         \<or> domain_from_url u \<in> seen_domains st)"

text \<open>
  A search provider that fails on the second query and answers the third, and a page
  fetcher that fails on the first conference, for concrete runs.
\<close>

definition search_web_example :: "string \<Rightarrow> search_result list option" where
  "search_web_example q =
    (if q = ''hedge fund MSP New York'' then None
     else if q = ''hedge fund IT support NYC''
       then Some [\<lparr>res_url = Some ''https://Acme.com/services'', res_title = None,
                   res_description = ''Acme IT''\<rparr>]
     else Some [])"

definition fetch_html_example :: "string \<Rightarrow> string option" where
  "fetch_html_example u =
    (if u = ''https://tradetechfxus.wbresearch.com/sponsors/2025'' then Some ''<html/>''
     else None)"

definition parser_example :: "string \<Rightarrow> string \<Rightarrow> row list option" where
  "parser_example html name = Some [new_row ''Gamma'' [] [] (''conf:'' @ name) name]"

section \<open>Properties of the category classifier\<close>

lemma max_key_mem: "max_key kvs best \<in> set (best # kvs)"
  by (induction kvs arbitrary: best) (auto split: if_splits)

lemma category_scores_keys:
  "map fst (category_scores text) =
     [''Financial MSP'', ''Trading Infra MSP'', ''Market Data Ops'',
      ''OMS/EMS & FIX'', ''RegOps / Surveillance'', ''Generic IT'']"
  by (simp add: category_scores_def Let_def)

lemma best_category_is_key:
  "fst (max_key (tl (category_scores text)) (hd (category_scores text)))
     \<in> set (map fst (category_scores text))"
proof -
  let ?score = "category_scores text"
  have "?score \<noteq> []"
    by (simp add: category_scores_def Let_def)
  moreover have "max_key (tl ?score) (hd ?score) \<in> set (hd ?score # tl ?score)"
    by (rule max_key_mem)
  ultimately have "max_key (tl ?score) (hd ?score) \<in> set ?score"
    by simp
  then show ?thesis
    by (metis image_eqI set_map)
qed

text \<open>
  C6. The category classifier is a total function of its text alone, and its value is
  always one of the six category labels of the score dictionary, hence never empty. The
  code spells the fifth label \<^verbatim>\<open>RegOps / Surveillance\<close>.
\<close>

theorem classify_category_total:
  "classify_category text \<in>
     {''Financial MSP'', ''Trading Infra MSP'', ''Market Data Ops'',
      ''OMS/EMS & FIX'', ''RegOps / Surveillance'', ''Generic IT''}
   \<and> classify_category text \<noteq> []"
proof -
  have "fst (max_key (tl (category_scores text)) (hd (category_scores text)))
      \<in> {''Financial MSP'', ''Trading Infra MSP'', ''Market Data Ops'',
          ''OMS/EMS & FIX'', ''RegOps / Surveillance'', ''Generic IT''}"
    using best_category_is_key [of "text"] by (simp only: category_scores_keys) simp
  then have "classify_category text \<in>
     {''Financial MSP'', ''Trading Infra MSP'', ''Market Data Ops'',
      ''OMS/EMS & FIX'', ''RegOps / Surveillance'', ''Generic IT''}"
    by (auto simp: classify_category_def Let_def)
  then show ?thesis by auto
qed

text \<open>
  C10. When at least one phrase of the MSP lexicon occurs in the text and no phrase of
  the finance, trading-infrastructure, market-data, OMS/EMS and reg-ops lexicons does,
  the score of Financial MSP is the number of MSP hits, the score of Generic IT is 1, and
  the classifier returns Financial MSP (so not Generic IT): the first maximum in the
  dictionary's order wins.
\<close>

theorem msp_only_is_financial_msp:
  assumes "hits MSP_KEYWORDS text > 0"
    and "hits FINANCE_KEYWORDS text = 0"
    and "hits TRADING_INFRA_KEYWORDS text = 0"
    and "hits MARKET_DATA_KEYWORDS text = 0"
    and "hits OMS_EMS_KEYWORDS text = 0"
    and "hits REG_OPS_KEYWORDS text = 0"
  shows "score_get (category_scores text) ''Financial MSP'' = hits MSP_KEYWORDS text
    \<and> score_get (category_scores text) ''Generic IT'' = 1
    \<and> classify_category text = ''Financial MSP''
    \<and> classify_category text \<noteq> ''Generic IT''"
  using assms
  by (simp add: classify_category_def category_scores_def Let_def score_get_def)

theorem msp_only_is_financial_msp_witness:
  "hits MSP_KEYWORDS ''it help desk and 24x7 support'' = 2
   \<and> hits FINANCE_KEYWORDS ''it help desk and 24x7 support'' = 0
   \<and> score_get (category_scores ''it help desk and 24x7 support'') ''Financial MSP'' = 2
   \<and> score_get (category_scores ''it help desk and 24x7 support'') ''Generic IT'' = 1
   \<and> classify_category ''it help desk and 24x7 support'' = ''Financial MSP''"
proof -
  have m: "hits MSP_KEYWORDS ''it help desk and 24x7 support'' = 2"
    by code_simp
  have f: "hits FINANCE_KEYWORDS ''it help desk and 24x7 support'' = 0"
    by code_simp
  have t: "hits TRADING_INFRA_KEYWORDS ''it help desk and 24x7 support'' = 0"
    by code_simp
  have d: "hits MARKET_DATA_KEYWORDS ''it help desk and 24x7 support'' = 0"
    by code_simp
  have o: "hits OMS_EMS_KEYWORDS ''it help desk and 24x7 support'' = 0"
    by code_simp
  have r: "hits REG_OPS_KEYWORDS ''it help desk and 24x7 support'' = 0"
    by code_simp
  from m have m0: "hits MSP_KEYWORDS ''it help desk and 24x7 support'' > 0"
    by simp
  show ?thesis
    using msp_only_is_financial_msp [OF m0 f t d o r] m f by simp
qed

section \<open>Properties of the merge\<close>

lemma drop_duplicates_subseq: "subseq (drop_duplicates key seen rs) rs"
  by (induction rs arbitrary: seen) auto

lemma drop_duplicates_keys:
  "r \<in> set (drop_duplicates key seen rs) \<Longrightarrow> key r \<notin> seen"
  by (induction rs arbitrary: seen) (auto split: if_splits)

lemma drop_duplicates_distinct: "distinct (map key (drop_duplicates key seen rs))"
  by (induction rs arbitrary: seen) (auto dest: drop_duplicates_keys)

lemma drop_duplicates_first:
  "r \<in> set (drop_duplicates key seen rs) \<Longrightarrow> find (\<lambda>x. key x = key r) rs = Some r"
proof (induction rs arbitrary: seen)
  case Nil
  then show ?case by simp
next
  case (Cons a rs)
  show ?case
  proof (cases "key a = key r")
    case True
    with Cons.prems have "r = a"
      by (auto split: if_splits dest: drop_duplicates_keys)
    with True show ?thesis by simp
  next
    case False
    with Cons show ?thesis by (auto split: if_splits)
  qed
qed

lemma drop_duplicates_keeps:
  "r \<in> set rs \<Longrightarrow> key r \<notin> seen \<Longrightarrow>
     \<exists>r0. find (\<lambda>x. key x = key r) rs = Some r0 \<and> r0 \<in> set (drop_duplicates key seen rs)"
proof (induction rs arbitrary: seen)
  case Nil
  then show ?case by simp
next
  case (Cons a rs)
  show ?case
  proof (cases "key a = key r")
    case True
    with Cons.prems show ?thesis by auto
  next
    case False
    with Cons.prems have in_rs: "r \<in> set rs" by auto
    show ?thesis
    proof (cases "key a \<in> seen")
      case True
      from Cons.IH [OF in_rs Cons.prems(2)] True False show ?thesis by auto
    next
      case notin: False
      from False Cons.prems(2) have "key r \<notin> insert (key a) seen" by auto
      from Cons.IH [OF in_rs this] notin False show ?thesis by auto
    qed
  qed
qed

lemma find_filter: "find P (filter Q xs) = find (\<lambda>x. Q x \<and> P x) xs"
  by (induction xs) auto

lemma drop_duplicates_append:
  "drop_duplicates key seen (xs @ ys) =
     drop_duplicates key seen xs @ drop_duplicates key (seen \<union> key ` set xs) ys"
proof (induction xs arbitrary: seen)
  case Nil
  then show ?case by simp
next
  case (Cons a xs)
  show ?case
  proof (cases "key a \<in> seen")
    case True
    then have "seen \<union> key ` set (a # xs) = seen \<union> key ` set xs" by auto
    with True Cons [of seen] show ?thesis by simp
  next
    case False
    have "seen \<union> key ` set (a # xs) = insert (key a) seen \<union> key ` set xs" by auto
    with False Cons [of "insert (key a) seen"] show ?thesis by simp
  qed
qed

lemma load_eq:
  "load rs (seen, acc) =
     (seen \<union> website_norm ` set (filter (\<lambda>r. website_norm r \<noteq> []) rs),
      acc @ drop_duplicates website_norm seen (filter (\<lambda>r. website_norm r \<noteq> []) rs))"
proof (induction rs arbitrary: seen acc)
  case Nil
  then show ?case by simp
next
  case (Cons r rs)
  show ?case
  proof (cases "website_norm r = []")
    case True
    with Cons [of seen acc] show ?thesis
      by (simp add: website_norm_def)
  next
    case False
    show ?thesis
    proof (cases "website_norm r \<in> seen")
      case True
      then have "seen \<union> website_norm ` set (filter (\<lambda>r. website_norm r \<noteq> []) (r # rs))
          = seen \<union> website_norm ` set (filter (\<lambda>r. website_norm r \<noteq> []) rs)"
        by auto
      with True False Cons [of seen acc] show ?thesis
        by (simp add: website_norm_def)
    next
      case notin: False
      have "seen \<union> website_norm ` set (filter (\<lambda>r. website_norm r \<noteq> []) (r # rs))
          = insert (website_norm r) seen \<union> website_norm ` set (filter (\<lambda>r. website_norm r \<noteq> []) rs)"
        using False by auto
      with notin False Cons [of "insert (website_norm r) seen" "acc @ [r]"] show ?thesis
        by (simp add: website_norm_def Let_def)
    qed
  qed
qed

lemma merge_csv_eq:
  "merge_csv s c cap =
     (if with_site_rows (read_rows s c) = [] then None
      else Some (truncate_rows cap (with_site_rows (read_rows s c))))"
  by (cases s; cases c)
     (simp_all add: merge_csv_def load_path_def load_eq read_rows_def with_site_rows_def
        Let_def drop_duplicates_append)

lemma merge_pandas_eq:
  "merge_pandas s c cap =
     (if s = None \<and> c = None then None
      else Some (truncate_rows cap (with_site_rows (read_rows s c) @ without_site_rows (read_rows s c))))"
  by (cases s; cases c)
     (simp_all add: merge_pandas_def read_rows_def with_site_rows_def without_site_rows_def
        Let_def)

lemma drop_duplicates_set: "set (drop_duplicates key seen rs) \<subseteq> set rs"
  by (induction rs arbitrary: seen) auto

lemma with_site_rows_has_site: "r \<in> set (with_site_rows rows) \<Longrightarrow> website_norm r \<noteq> []"
  using drop_duplicates_set [of website_norm "{}" "filter (\<lambda>r. website_norm r \<noteq> []) rows"] 
  by (auto simp: with_site_rows_def)

lemma without_site_rows_no_site: "r \<in> set (without_site_rows rows) \<Longrightarrow> website_norm r = []"
  using drop_duplicates_set [of Name "{}" "filter (\<lambda>r. website_norm r = []) rows"] 
  by (auto simp: without_site_rows_def)

lemma filter_with_site_rows:
  "filter (\<lambda>r. website_norm r = []) (with_site_rows rows) = []"
  "filter (\<lambda>r. website_norm r \<noteq> []) (with_site_rows rows) = with_site_rows rows"
  by (auto simp: filter_empty_conv filter_id_conv dest: with_site_rows_has_site)

lemma filter_without_site_rows:
  "filter (\<lambda>r. website_norm r = []) (without_site_rows rows) = without_site_rows rows"
  "filter (\<lambda>r. website_norm r \<noteq> []) (without_site_rows rows) = []"
  by (auto simp: filter_empty_conv filter_id_conv dest: without_site_rows_no_site)

lemma filter_take_with_site_rows:
  "filter (\<lambda>r. website_norm r = []) (take n (with_site_rows rows)) = []"
  "filter (\<lambda>r. website_norm r \<noteq> []) (take n (with_site_rows rows)) = take n (with_site_rows rows)"
  by (auto simp: filter_empty_conv filter_id_conv dest!: in_set_takeD with_site_rows_has_site)

lemma filter_take_without_site_rows:
  "filter (\<lambda>r. website_norm r = []) (take n (without_site_rows rows)) = take n (without_site_rows rows)"
  "filter (\<lambda>r. website_norm r \<noteq> []) (take n (without_site_rows rows)) = []"
  by (auto simp: filter_empty_conv filter_id_conv dest!: in_set_takeD without_site_rows_no_site)

lemma with_site_rows_subseq: "subseq (with_site_rows rows) rows"
  unfolding with_site_rows_def
  by (rule subseq_order.trans [OF drop_duplicates_subseq subseq_filter_left])

lemma without_site_rows_subseq: "subseq (without_site_rows rows) rows"
  unfolding without_site_rows_def
  by (rule subseq_order.trans [OF drop_duplicates_subseq subseq_filter_left])

lemma truncate_rows_take: "\<exists>n. truncate_rows cap rows = take n rows"
proof (cases "truncate_rows cap rows = rows")
  case True
  then have "truncate_rows cap rows = take (length rows) rows" by simp
  then show ?thesis ..
next
  case False
  then obtain k where "cap = Some k" "truncate_rows cap rows = take (nat k) rows"
    by (auto simp: truncate_rows_def split: option.splits if_splits)
  then show ?thesis by blast
qed

lemma subseq_take: "subseq (take n xs) xs"
  by (metis prefix_imp_subseq take_is_prefix)

text \<open>
  C1 (as amended). In the data-frame body of the merge, with no cap on the total, the rows
  whose normalised website is empty are deduplicated on the \<open>Name\<close> column as it
  stands (neither trimmed nor lower-cased): the website-less rows of the output have
  pairwise different names, for every website-less input row the first-seen website-less
  row of that exact name is in the output, and every website-less output row is the
  first-seen one of its name. So no website-less row whose name is unique is discarded.
\<close>

theorem merge_without_site_dedup_on_name:
  assumes "merge_raw_sources True search_csv conf_csv None = Some out"
  shows "distinct (map Name (filter (\<lambda>r. website_norm r = []) out))
    \<and> (\<forall>r \<in> set (read_rows search_csv conf_csv). website_norm r = [] \<longrightarrow>
          (\<exists>r0 \<in> set out.
             find (\<lambda>x. website_norm x = [] \<and> Name x = Name r) (read_rows search_csv conf_csv) = Some r0))
    \<and> (\<forall>r \<in> set out. website_norm r = [] \<longrightarrow>
          find (\<lambda>x. website_norm x = [] \<and> Name x = Name r) (read_rows search_csv conf_csv) = Some r)"
proof -
  let ?ins = "read_rows search_csv conf_csv"
  from assms have out: "out = with_site_rows ?ins @ without_site_rows ?ins"
    by (auto simp: merge_raw_sources_def merge_pandas_eq truncate_rows_def split: if_splits)
  have nosite: "filter (\<lambda>r. website_norm r = []) out = without_site_rows ?ins"
    by (simp add: out filter_with_site_rows filter_without_site_rows)
  have d: "distinct (map Name (filter (\<lambda>r. website_norm r = []) out))"
    unfolding nosite without_site_rows_def by (rule drop_duplicates_distinct)
  have k: "\<exists>r0 \<in> set out.
             find (\<lambda>x. website_norm x = [] \<and> Name x = Name r) ?ins = Some r0"
    if "r \<in> set ?ins" "website_norm r = []" for r
  proof -
    from that have "r \<in> set (filter (\<lambda>r. website_norm r = []) ?ins)" by simp
    from drop_duplicates_keeps [OF this, of Name "{}"]
    obtain r0 where "find (\<lambda>x. Name x = Name r) (filter (\<lambda>r. website_norm r = []) ?ins) = Some r0"
      and "r0 \<in> set (without_site_rows ?ins)"
      by (auto simp: without_site_rows_def)
    then show ?thesis
      by (auto simp: find_filter out)
  qed
  have f: "find (\<lambda>x. website_norm x = [] \<and> Name x = Name r) ?ins = Some r"
    if "r \<in> set out" "website_norm r = []" for r
  proof -
    from that have "r \<in> set (filter (\<lambda>r. website_norm r = []) out)" by simp
    then have "r \<in> set (drop_duplicates Name {} (filter (\<lambda>r. website_norm r = []) ?ins))"
      by (simp only: nosite without_site_rows_def)
    from drop_duplicates_first [OF this] show ?thesis
      by (simp add: find_filter)
  qed
  from d k f show ?thesis by blast
qed

theorem merge_without_site_dedup_on_name_witness:
  "merge_raw_sources True
      (Some [new_row ''Acme'' [] ''Booth: 1'' ''conf:FIA_Expo_2024'' ''FIA_Expo_2024'',
             new_row ''Beta'' ''https://beta.com'' [] ''search:q'' [],
             new_row ''Acme'' [] ''Booth: 2'' ''conf:FIA_Expo_2024'' ''FIA_Expo_2024''])
      None None
    = Some [new_row ''Beta'' ''https://beta.com'' [] ''search:q'' [],
            new_row ''Acme'' [] ''Booth: 1'' ''conf:FIA_Expo_2024'' ''FIA_Expo_2024'']
   \<and> distinct (map Name (filter (\<lambda>r. website_norm r = [])
        [new_row ''Beta'' ''https://beta.com'' [] ''search:q'' [],
         new_row ''Acme'' [] ''Booth: 1'' ''conf:FIA_Expo_2024'' ''FIA_Expo_2024'']))
   \<and> find (\<lambda>x. website_norm x = [] \<and> Name x = ''Acme'')
        (read_rows
          (Some [new_row ''Acme'' [] ''Booth: 1'' ''conf:FIA_Expo_2024'' ''FIA_Expo_2024'',
                 new_row ''Beta'' ''https://beta.com'' [] ''search:q'' [],
                 new_row ''Acme'' [] ''Booth: 2'' ''conf:FIA_Expo_2024'' ''FIA_Expo_2024''])
          None)
      = Some (new_row ''Acme'' [] ''Booth: 1'' ''conf:FIA_Expo_2024'' ''FIA_Expo_2024'')"
proof -
  let ?a = "new_row ''Acme'' [] ''Booth: 1'' ''conf:FIA_Expo_2024'' ''FIA_Expo_2024''"
  let ?b = "new_row ''Beta'' ''https://beta.com'' [] ''search:q'' []"
  let ?a2 = "new_row ''Acme'' [] ''Booth: 2'' ''conf:FIA_Expo_2024'' ''FIA_Expo_2024''"
  have h: "merge_raw_sources True (Some [?a, ?b, ?a2]) None None = Some [?b, ?a]"
    by code_simp
  have na: "website_norm ?a = []" "Name ?a = ''Acme''"
    by code_simp+
  note t = merge_without_site_dedup_on_name [OF h]
  from t have "distinct (map Name (filter (\<lambda>r. website_norm r = []) [?b, ?a]))"
    by blast
  moreover from t
  have "\<forall>r \<in> set [?b, ?a]. website_norm r = [] \<longrightarrow>
          find (\<lambda>x. website_norm x = [] \<and> Name x = Name r)
            (read_rows (Some [?a, ?b, ?a2]) None) = Some r"
    by blast
  then have "find (\<lambda>x. website_norm x = [] \<and> Name x = Name ?a)
            (read_rows (Some [?a, ?b, ?a2]) None) = Some ?a"
    using na(1) by simp
  ultimately show ?thesis
    using h by (simp only: na(2))
qed

text \<open>
  C3 (as amended). The merge is a function of its inputs. In the pure-CSV body the output
  is a subsequence of the rows read, in the order read. In the data-frame body the output
  is the rows with a website followed by the rows without one, and each of these two
  blocks is a subsequence of the rows read; a website-less row is therefore moved behind
  every row with a website, also behind those read after it.
\<close>

theorem merge_order:
  "(merge_raw_sources False search_csv conf_csv cap = Some out \<longrightarrow>
      subseq out (read_rows search_csv conf_csv))
   \<and> (merge_raw_sources True search_csv conf_csv cap = Some out \<longrightarrow>
      out = filter (\<lambda>r. website_norm r \<noteq> []) out @ filter (\<lambda>r. website_norm r = []) out
      \<and> subseq (filter (\<lambda>r. website_norm r \<noteq> []) out) (read_rows search_csv conf_csv)
      \<and> subseq (filter (\<lambda>r. website_norm r = []) out) (read_rows search_csv conf_csv))"
proof (intro conjI impI)
  let ?ins = "read_rows search_csv conf_csv"
  assume "merge_raw_sources False search_csv conf_csv cap = Some out"
  then have "out = truncate_rows cap (with_site_rows ?ins)"
    by (auto simp: merge_raw_sources_def merge_csv_eq split: if_splits)
  then obtain n where "out = take n (with_site_rows ?ins)"
    using truncate_rows_take by metis
  then show "subseq out ?ins"
    using subseq_order.trans [OF subseq_take with_site_rows_subseq] by simp
next
  let ?ins = "read_rows search_csv conf_csv"
  let ?W = "with_site_rows ?ins" and ?N = "without_site_rows ?ins"
  assume "merge_raw_sources True search_csv conf_csv cap = Some out"
  then have "out = truncate_rows cap (?W @ ?N)"
    by (auto simp: merge_raw_sources_def merge_pandas_eq split: if_splits)
  then obtain n where out: "out = take n ?W @ take (n - length ?W) ?N"
    using truncate_rows_take [of cap "?W @ ?N"] by auto
  have w: "filter (\<lambda>r. website_norm r \<noteq> []) out = take n ?W"
    by (simp add: out filter_take_with_site_rows filter_take_without_site_rows)
  have m: "filter (\<lambda>r. website_norm r = []) out = take (n - length ?W) ?N"
    by (simp add: out filter_take_with_site_rows filter_take_without_site_rows)
  show "out = filter (\<lambda>r. website_norm r \<noteq> []) out @ filter (\<lambda>r. website_norm r = []) out"
    unfolding w m by (rule out)
  show "subseq (filter (\<lambda>r. website_norm r \<noteq> []) out) ?ins"
    unfolding w by (rule subseq_order.trans [OF subseq_take with_site_rows_subseq])
  show "subseq (filter (\<lambda>r. website_norm r = []) out) ?ins"
    unfolding m by (rule subseq_order.trans [OF subseq_take without_site_rows_subseq])
qed

theorem merge_order_witness:
  "merge_raw_sources False
      (Some [new_row ''Acme'' ''https://acme.com'' [] ''search:q'' [],
             new_row ''Beta'' ''https://beta.com'' [] ''search:q'' []])
      (Some [new_row ''Acme Corp'' ''HTTPS://ACME.COM '' [] ''conf:FIA_Expo_2024'' ''FIA_Expo_2024'',
             new_row ''Gamma'' [] [] ''conf:FIA_Expo_2024'' ''FIA_Expo_2024'',
             new_row ''Delta'' ''https://delta.com'' [] ''conf:FIA_Expo_2024'' ''FIA_Expo_2024''])
      (Some 2)
    = Some [new_row ''Acme'' ''https://acme.com'' [] ''search:q'' [],
            new_row ''Beta'' ''https://beta.com'' [] ''search:q'' []]
   \<and> subseq
        [new_row ''Acme'' ''https://acme.com'' [] ''search:q'' [],
         new_row ''Beta'' ''https://beta.com'' [] ''search:q'' []]
        (read_rows
          (Some [new_row ''Acme'' ''https://acme.com'' [] ''search:q'' [],
                 new_row ''Beta'' ''https://beta.com'' [] ''search:q'' []])
          (Some [new_row ''Acme Corp'' ''HTTPS://ACME.COM '' [] ''conf:FIA_Expo_2024'' ''FIA_Expo_2024'',
                 new_row ''Gamma'' [] [] ''conf:FIA_Expo_2024'' ''FIA_Expo_2024'',
                 new_row ''Delta'' ''https://delta.com'' [] ''conf:FIA_Expo_2024'' ''FIA_Expo_2024'']))
   \<and> merge_raw_sources True
      (Some [new_row ''Gamma'' [] [] ''conf:FIA_Expo_2024'' ''FIA_Expo_2024'',
             new_row ''Delta'' ''https://delta.com'' [] ''conf:FIA_Expo_2024'' ''FIA_Expo_2024''])
      None None
    = Some [new_row ''Delta'' ''https://delta.com'' [] ''conf:FIA_Expo_2024'' ''FIA_Expo_2024'',
            new_row ''Gamma'' [] [] ''conf:FIA_Expo_2024'' ''FIA_Expo_2024'']
   \<and> subseq
        (filter (\<lambda>r. website_norm r = [])
          [new_row ''Delta'' ''https://delta.com'' [] ''conf:FIA_Expo_2024'' ''FIA_Expo_2024'',
           new_row ''Gamma'' [] [] ''conf:FIA_Expo_2024'' ''FIA_Expo_2024''])
        (read_rows
          (Some [new_row ''Gamma'' [] [] ''conf:FIA_Expo_2024'' ''FIA_Expo_2024'',
                 new_row ''Delta'' ''https://delta.com'' [] ''conf:FIA_Expo_2024'' ''FIA_Expo_2024''])
          None)"
proof -
  let ?a = "new_row ''Acme'' ''https://acme.com'' [] ''search:q'' []"
  let ?b = "new_row ''Beta'' ''https://beta.com'' [] ''search:q'' []"
  let ?a2 = "new_row ''Acme Corp'' ''HTTPS://ACME.COM '' [] ''conf:FIA_Expo_2024'' ''FIA_Expo_2024''"
  let ?g = "new_row ''Gamma'' [] [] ''conf:FIA_Expo_2024'' ''FIA_Expo_2024''"
  let ?d = "new_row ''Delta'' ''https://delta.com'' [] ''conf:FIA_Expo_2024'' ''FIA_Expo_2024''"
  have h1: "merge_raw_sources False (Some [?a, ?b]) (Some [?a2, ?g, ?d]) (Some 2) = Some [?a, ?b]"
    by code_simp
  have h2: "merge_raw_sources True (Some [?g, ?d]) None None = Some [?d, ?g]"
    by code_simp
  from merge_order [of "Some [?a, ?b]" "Some [?a2, ?g, ?d]" "Some 2" "[?a, ?b]"] h1
  have "subseq [?a, ?b] (read_rows (Some [?a, ?b]) (Some [?a2, ?g, ?d]))"
    by blast
  moreover from merge_order [of "Some [?g, ?d]" None None "[?d, ?g]"] h2
  have "subseq (filter (\<lambda>r. website_norm r = []) [?d, ?g]) (read_rows (Some [?g, ?d]) None)"
    by blast
  ultimately show ?thesis
    using h1 h2 by simp
qed

lemma norm_example_upper: "py_lower (py_strip ''HTTPS://Example.com'') = ''https://example.com''"
  by code_simp

lemma norm_example_lower: "py_lower (py_strip ''https://example.com'') = ''https://example.com''"
  by code_simp

lemma norm_example_slash: "py_lower (py_strip ''https://example.com/'') = ''https://example.com/''"
  by code_simp

text \<open>
  C4 (as amended). The key of a row is its website, trimmed and lower-cased, and nothing
  else is normalised. When the rows read are two rows of which the first has the website
  \<^verbatim>\<open>HTTPS://Example.com\<close>: if the second has \<^verbatim>\<open>https://example.com\<close>, the two
  share a key and the merge keeps exactly the first-seen row; if the second has
  \<^verbatim>\<open>https://example.com/\<close>, the trailing slash makes the keys differ and both rows are
  kept (up to the cap). This holds in both bodies of the merge and for every value of
  the other fields.
\<close>

theorem merge_example_websites:
  assumes "read_rows search_csv conf_csv = [r1, r2]"
    and "Website r1 = ''HTTPS://Example.com''"
  shows "(Website r2 = ''https://example.com'' \<longrightarrow>
            merge_raw_sources pd search_csv conf_csv cap = Some [r1])
       \<and> (Website r2 = ''https://example.com/'' \<longrightarrow>
            merge_raw_sources pd search_csv conf_csv cap = Some (truncate_rows cap [r1, r2]))"
proof -
  from assms(1) have ne: "\<not> (search_csv = None \<and> conf_csv = None)"
    by (cases search_csv; cases conf_csv) (simp_all add: read_rows_def)
  have n1: "website_norm r1 = ''https://example.com''"
    by (simp add: website_norm_def assms(2) norm_example_upper)
  have a: "merge_raw_sources pd search_csv conf_csv cap = Some [r1]"
    if "Website r2 = ''https://example.com''"
  proof -
    from that have n2: "website_norm r2 = ''https://example.com''"
      by (simp add: website_norm_def norm_example_lower)
    have "with_site_rows [r1, r2] = [r1]" "without_site_rows [r1, r2] = []"
      by (simp_all add: with_site_rows_def without_site_rows_def n1 n2)
    with ne show ?thesis
      by (auto simp: merge_raw_sources_def merge_pandas_eq merge_csv_eq assms(1) truncate_rows_def
            split: option.splits)
  qed
  have b: "merge_raw_sources pd search_csv conf_csv cap = Some (truncate_rows cap [r1, r2])"
    if "Website r2 = ''https://example.com/''"
  proof -
    from that have n2: "website_norm r2 = ''https://example.com/''"
      by (simp add: website_norm_def norm_example_slash)
    have "with_site_rows [r1, r2] = [r1, r2]" "without_site_rows [r1, r2] = []"
      by (simp_all add: with_site_rows_def without_site_rows_def n1 n2)
    with ne show ?thesis
      by (auto simp: merge_raw_sources_def merge_pandas_eq merge_csv_eq assms(1))
  qed
  from a b show ?thesis by blast
qed

theorem merge_example_websites_witness:
  "merge_raw_sources True
      (Some [new_row ''Example'' ''HTTPS://Example.com'' [] ''search:q'' []])
      (Some [new_row ''Example Inc'' ''https://example.com'' [] ''conf:FIA_Expo_2024'' ''FIA_Expo_2024''])
      None
    = Some [new_row ''Example'' ''HTTPS://Example.com'' [] ''search:q'' []]
   \<and> merge_raw_sources False
      (Some [new_row ''Example'' ''HTTPS://Example.com'' [] ''search:q'' [],
             new_row ''Example Inc'' ''https://example.com/'' [] ''search:p'' []])
      None None
    = Some [new_row ''Example'' ''HTTPS://Example.com'' [] ''search:q'' [],
            new_row ''Example Inc'' ''https://example.com/'' [] ''search:p'' []]"
  using merge_example_websites
      [of "Some [new_row ''Example'' ''HTTPS://Example.com'' [] ''search:q'' []]"
          "Some [new_row ''Example Inc'' ''https://example.com'' [] ''conf:FIA_Expo_2024'' ''FIA_Expo_2024'']"
          "new_row ''Example'' ''HTTPS://Example.com'' [] ''search:q'' []"
          "new_row ''Example Inc'' ''https://example.com'' [] ''conf:FIA_Expo_2024'' ''FIA_Expo_2024''"
          True None]
    merge_example_websites
      [of "Some [new_row ''Example'' ''HTTPS://Example.com'' [] ''search:q'' [],
             new_row ''Example Inc'' ''https://example.com/'' [] ''search:p'' []]"
          None
          "new_row ''Example'' ''HTTPS://Example.com'' [] ''search:q'' []"
          "new_row ''Example Inc'' ''https://example.com/'' [] ''search:p'' []"
          False None]
  by (simp add: read_rows_def new_row_def truncate_rows_def)

text \<open>
  C4 as stated fails: the websites \<^verbatim>\<open>HTTPS://Example.com\<close> and
  \<^verbatim>\<open>https://example.com/\<close> have different keys, and both bodies of the merge keep both
  rows.
\<close>

theorem merge_trailing_slash_counterexample:
  "merge_raw_sources True
      (Some [new_row ''Example'' ''HTTPS://Example.com'' [] ''search:q'' [],
             new_row ''Example'' ''https://example.com/'' [] ''search:q'' []])
      (Some []) None
    = Some [new_row ''Example'' ''HTTPS://Example.com'' [] ''search:q'' [],
            new_row ''Example'' ''https://example.com/'' [] ''search:q'' []]
   \<and> merge_raw_sources False
      (Some [new_row ''Example'' ''HTTPS://Example.com'' [] ''search:q'' [],
             new_row ''Example'' ''https://example.com/'' [] ''search:q'' []])
      (Some []) None
    = Some [new_row ''Example'' ''HTTPS://Example.com'' [] ''search:q'' [],
            new_row ''Example'' ''https://example.com/'' [] ''search:q'' []]"
  by code_simp

text \<open>
  C1 as stated fails: two website-less rows named \<^verbatim>\<open>Acme\<close> and \<^verbatim>\<open>acme\<close> have the
  same normalised name, and the data-frame body keeps both; the pure-CSV body writes no
  website-less row at all, not even one whose name is unique.
\<close>

theorem merge_name_case_counterexample:
  "merge_raw_sources True
      (Some [new_row ''Acme'' [] [] ''conf:FIA_Expo_2024'' ''FIA_Expo_2024'',
             new_row ''acme'' [] [] ''conf:FIA_Expo_2024'' ''FIA_Expo_2024''])
      None None
    = Some [new_row ''Acme'' [] [] ''conf:FIA_Expo_2024'' ''FIA_Expo_2024'',
            new_row ''acme'' [] [] ''conf:FIA_Expo_2024'' ''FIA_Expo_2024'']
   \<and> py_lower (py_strip ''Acme'') = py_lower (py_strip ''acme'')
   \<and> merge_raw_sources False
      (Some [new_row ''Acme'' [] [] ''conf:FIA_Expo_2024'' ''FIA_Expo_2024''])
      None None = None"
  by code_simp

text \<open>
  C3 as stated fails: the data-frame body writes a website-less row after a row with a
  website that was read after it.
\<close>

theorem merge_order_counterexample:
  "merge_raw_sources True
      (Some [new_row ''Acme'' [] [] ''conf:FIA_Expo_2024'' ''FIA_Expo_2024'',
             new_row ''Beta'' ''https://beta.com'' [] ''conf:FIA_Expo_2024'' ''FIA_Expo_2024''])
      None None
    = Some [new_row ''Beta'' ''https://beta.com'' [] ''conf:FIA_Expo_2024'' ''FIA_Expo_2024'',
            new_row ''Acme'' [] [] ''conf:FIA_Expo_2024'' ''FIA_Expo_2024'']
   \<and> \<not> subseq
        [new_row ''Beta'' ''https://beta.com'' [] ''conf:FIA_Expo_2024'' ''FIA_Expo_2024'',
         new_row ''Acme'' [] [] ''conf:FIA_Expo_2024'' ''FIA_Expo_2024'']
        (read_rows
          (Some [new_row ''Acme'' [] [] ''conf:FIA_Expo_2024'' ''FIA_Expo_2024'',
                 new_row ''Beta'' ''https://beta.com'' [] ''conf:FIA_Expo_2024'' ''FIA_Expo_2024''])
          None)"
  by code_simp

section \<open>Properties of the enricher\<close>

lemma enrich_loop_eq:
  "enrich_loop f rs acc = acc @ List.map_filter (enrich_row f) rs"
  by (induction rs arbitrary: acc) (auto simp: List.map_filter_simps split: option.splits)

lemma enrich_row_None: "enrich_row f r = None \<longleftrightarrow> py_strip (Website r) = []"
  by (simp add: enrich_row_def Let_def)

lemma enrich_row_keeps:
  assumes "enrich_row f r = Some r'"
  shows "Name r' = Name r" "Website r' = Website r" "Notes r' = Notes r"
    "Source r' = Source r" "Conference r' = Conference r"
  using assms by (auto simp: enrich_row_def Let_def split: if_splits)

lemma map_filter_enrich_field:
  assumes "\<And>r r'. enrich_row f r = Some r' \<Longrightarrow> g r' = g r"
  shows "map g (List.map_filter (enrich_row f) rs)
    = map g (filter (\<lambda>r. py_strip (Website r) \<noteq> []) rs)"
proof (induction rs)
  case Nil
  then show ?case by (simp add: List.map_filter_simps)
next
  case (Cons a rs)
  show ?case
  proof (cases "enrich_row f a")
    case None
    then have "py_strip (Website a) = []"
      by (simp add: enrich_row_None)
    with None Cons show ?thesis
      by (simp add: List.map_filter_simps)
  next
    case (Some a')
    then have "py_strip (Website a) \<noteq> []"
      using enrich_row_None [of f a] by simp
    with Some Cons assms [OF Some] show ?thesis
      by (simp add: List.map_filter_simps)
  qed
qed

lemma map_filter_enrich_keeps:
  "map Name (List.map_filter (enrich_row f) rs) = map Name (filter (\<lambda>r. py_strip (Website r) \<noteq> []) rs)"
  "map Website (List.map_filter (enrich_row f) rs) = map Website (filter (\<lambda>r. py_strip (Website r) \<noteq> []) rs)"
  "map Notes (List.map_filter (enrich_row f) rs) = map Notes (filter (\<lambda>r. py_strip (Website r) \<noteq> []) rs)"
  "map Source (List.map_filter (enrich_row f) rs) = map Source (filter (\<lambda>r. py_strip (Website r) \<noteq> []) rs)"
  "map Conference (List.map_filter (enrich_row f) rs) = map Conference (filter (\<lambda>r. py_strip (Website r) \<noteq> []) rs)"
  by (rule map_filter_enrich_field, erule enrich_row_keeps)+

text \<open>
  C2 (as amended). The enricher skips every row whose website is blank and deletes no
  other row: it writes nothing exactly when no input row has a non-blank website, and
  otherwise it writes one enriched row for each input row with a non-blank website, in
  the order of the input, with the name, website, notes, source and conference of that
  row unchanged.
\<close>

theorem enrich_keeps_rows_with_website:
  "(enrich f rs = None \<longleftrightarrow> filter (\<lambda>r. py_strip (Website r) \<noteq> []) rs = [])
   \<and> (\<forall>out. enrich f rs = Some out \<longrightarrow>
         length out = length (filter (\<lambda>r. py_strip (Website r) \<noteq> []) rs)
         \<and> map Name out = map Name (filter (\<lambda>r. py_strip (Website r) \<noteq> []) rs)
         \<and> map Website out = map Website (filter (\<lambda>r. py_strip (Website r) \<noteq> []) rs)
         \<and> map Notes out = map Notes (filter (\<lambda>r. py_strip (Website r) \<noteq> []) rs)
         \<and> map Source out = map Source (filter (\<lambda>r. py_strip (Website r) \<noteq> []) rs)
         \<and> map Conference out = map Conference (filter (\<lambda>r. py_strip (Website r) \<noteq> []) rs))"
proof -
  let ?kept = "filter (\<lambda>r. py_strip (Website r) \<noteq> []) rs"
  let ?out = "List.map_filter (enrich_row f) rs"
  have len: "length ?out = length ?kept"
    using map_filter_enrich_keeps(1) [of f rs] by (metis length_map)
  then have "?out = [] \<longleftrightarrow> ?kept = []"
    by (metis length_0_conv)
  moreover have "enrich f rs = (if ?out = [] then None else Some ?out)"
    by (simp add: enrich_def enrich_loop_eq)
  ultimately show ?thesis
    using len by (auto simp: map_filter_enrich_keeps)
qed

theorem enrich_keeps_rows_with_website_witness:
  "enrich (\<lambda>u. ''managed it and help desk in boston'')
      [new_row ''Acme'' [] [] ''conf:FIA_Expo_2024'' ''FIA_Expo_2024'',
       new_row ''Beta'' ''https://beta.com'' ''n'' ''search:q'' []]
    = Some [\<lparr>Name = ''Beta'', Website = ''https://beta.com'', HQ = ''Boston, MA'',
              Category = ''Financial MSP'', Fit = ''Core'', Notes = ''n'',
              Source = ''search:q'', Conference = [],
              Classification = ''Potential acquisition target (near-term)''\<rparr>]
   \<and> map Name [\<lparr>Name = ''Beta'', Website = ''https://beta.com'', HQ = ''Boston, MA'',
              Category = ''Financial MSP'', Fit = ''Core'', Notes = ''n'',
              Source = ''search:q'', Conference = [],
              Classification = ''Potential acquisition target (near-term)''\<rparr>]
     = map Name (filter (\<lambda>r. py_strip (Website r) \<noteq> [])
         [new_row ''Acme'' [] [] ''conf:FIA_Expo_2024'' ''FIA_Expo_2024'',
          new_row ''Beta'' ''https://beta.com'' ''n'' ''search:q'' []])"
proof -
  let ?f = "\<lambda>u :: string. ''managed it and help desk in boston''"
  let ?rs = "[new_row ''Acme'' [] [] ''conf:FIA_Expo_2024'' ''FIA_Expo_2024'',
       new_row ''Beta'' ''https://beta.com'' ''n'' ''search:q'' []]"
  let ?out = "[\<lparr>Name = ''Beta'', Website = ''https://beta.com'', HQ = ''Boston, MA'',
              Category = ''Financial MSP'', Fit = ''Core'', Notes = ''n'',
              Source = ''search:q'', Conference = [],
              Classification = ''Potential acquisition target (near-term)''\<rparr>]"
  have h: "enrich ?f ?rs = Some ?out"
    by code_simp
  from enrich_keeps_rows_with_website [of ?f ?rs] h
  have "map Name ?out = map Name (filter (\<lambda>r. py_strip (Website r) \<noteq> []) ?rs)"
    by blast
  with h show ?thesis by (rule conjI)
qed

text \<open>
  C2 as stated fails: the data-frame body of the merge hands a website-less row to the
  enricher, and the enricher writes no row for it.
\<close>

theorem enrich_skips_rows_without_website_counterexample:
  "merge_raw_sources True
      (Some [new_row ''Beta'' ''https://beta.com'' [] ''search:q'' []])
      (Some [new_row ''Acme'' [] [] ''conf:FIA_Expo_2024'' ''FIA_Expo_2024''])
      None
    = Some [new_row ''Beta'' ''https://beta.com'' [] ''search:q'' [],
            new_row ''Acme'' [] [] ''conf:FIA_Expo_2024'' ''FIA_Expo_2024'']
   \<and> enrich (\<lambda>u. [])
        [new_row ''Beta'' ''https://beta.com'' [] ''search:q'' [],
         new_row ''Acme'' [] [] ''conf:FIA_Expo_2024'' ''FIA_Expo_2024'']
     = Some [\<lparr>Name = ''Beta'', Website = ''https://beta.com'', HQ = [],
              Category = ''Generic IT'', Fit = ''Stretch'', Notes = [],
              Source = ''search:q'', Conference = [],
              Classification = ''Pattern / Comp / Future Partner''\<rparr>]
   \<and> enrich (\<lambda>u. []) [new_row ''Acme'' [] [] ''conf:FIA_Expo_2024'' ''FIA_Expo_2024''] = None"
  by code_simp

lemma domain_known_url:
  assumes "domain_from_url u \<in> KNOWN_FINANCIAL_MSPS"
  shows "u \<noteq> []"
proof
  assume "u = []"
  then have "domain_from_url u = []"
    by (simp add: domain_from_url_def py_lower_def)
  with assms show False
    by (simp add: KNOWN_FINANCIAL_MSPS_def)
qed

text \<open>
  C5. For a row whose website (trimmed) has a domain in the list of known financial MSPs,
  and for every page fetcher, hence every fetched text, the loop body of the enricher
  keeps the row and sets its category to Financial MSP and its fit to Core together; the
  row so enriched is in the output of the enricher for every input that holds the row.
\<close>

theorem known_financial_msp_override:
  assumes "domain_from_url (py_strip (Website row)) \<in> KNOWN_FINANCIAL_MSPS"
  shows "\<exists>row'. enrich_row fetch_site_text row = Some row'
      \<and> Category row' = ''Financial MSP'' \<and> Fit row' = ''Core''
      \<and> (\<forall>input_rows. row \<in> set input_rows \<longrightarrow>
            (\<exists>out. enrich fetch_site_text input_rows = Some out \<and> row' \<in> set out))"
proof -
  from assms have u: "py_strip (Website row) \<noteq> []"
    by (rule domain_known_url)
  then obtain row' where r: "enrich_row fetch_site_text row = Some row'"
    using enrich_row_None [of fetch_site_text row] by auto
  with assms u have c: "Category row' = ''Financial MSP''" "Fit row' = ''Core''"
    by (auto simp: enrich_row_def Let_def split: if_splits)
  have "\<exists>out. enrich fetch_site_text input_rows = Some out \<and> row' \<in> set out"
    if "row \<in> set input_rows" for input_rows
  proof -
    from that r have "row' \<in> set (List.map_filter (enrich_row fetch_site_text) input_rows)"
      by (force simp: List.map_filter_def)
    then show ?thesis
      by (auto simp: enrich_def enrich_loop_eq Let_def)
  qed
  with r c show ?thesis by blast
qed

theorem known_financial_msp_override_witness:
  "domain_from_url (py_strip (Website (new_row ''Eze Castle'' ''https://eze-castle.com/about'' [] ''search:q'' [])))
      \<in> KNOWN_FINANCIAL_MSPS
   \<and> classify_category [] = ''Generic IT''
   \<and> enrich (\<lambda>u. []) [new_row ''Eze Castle'' ''https://eze-castle.com/about'' [] ''search:q'' []]
     = Some [\<lparr>Name = ''Eze Castle'', Website = ''https://eze-castle.com/about'', HQ = [],
              Category = ''Financial MSP'', Fit = ''Core'', Notes = [],
              Source = ''search:q'', Conference = [],
              Classification = ''Potential acquisition target (near-term)''\<rparr>]"
proof -
  let ?r = "new_row ''Eze Castle'' ''https://eze-castle.com/about'' [] ''search:q'' []"
  have d: "domain_from_url (py_strip (Website ?r)) \<in> KNOWN_FINANCIAL_MSPS"
    by code_simp
  have g: "classify_category [] = ''Generic IT''"
    by code_simp
  have e: "enrich (\<lambda>u. []) [?r]
     = Some [\<lparr>Name = ''Eze Castle'', Website = ''https://eze-castle.com/about'', HQ = [],
              Category = ''Financial MSP'', Fit = ''Core'', Notes = [],
              Source = ''search:q'', Conference = [],
              Classification = ''Potential acquisition target (near-term)''\<rparr>]"
    by code_simp
  from known_financial_msp_override [OF d, of "\<lambda>u. []"]
  obtain row' where "enrich_row (\<lambda>u. []) ?r = Some row'"
    and "Category row' = ''Financial MSP''" and "Fit row' = ''Core''"
    by blast
  with d g e show ?thesis by simp
qed

section \<open>Properties of the name cleaner\<close>

text \<open>
  C7. For the title \<^verbatim>\<open>NextGen IT Services For Hedge Funds | Managed IT Services\<close> and
  every fallback domain, the name cleaner returns the first segment: the first and the
  last segment both look like marketing, so neither rule that prefers the brand fires.
\<close>

theorem clean_result_name_nextgen:
  "clean_result_name (Some ''NextGen IT Services For Hedge Funds | Managed IT Services'')
      domain_fallback = ''NextGen IT Services For Hedge Funds''
   \<and> looks_like_marketing ''NextGen IT Services For Hedge Funds''
   \<and> looks_like_marketing ''Managed IT Services''"
  by code_simp

section \<open>Properties of the headquarters resolver\<close>

lemma lower_not_space: "is_lower c \<Longrightarrow> \<not> is_space c"
  by (auto simp: is_lower_def is_space_def Let_def)

lemma region_len_Some:
  assumes "list_all is_space ws" and "is_lower a" and "is_lower b"
  shows "region_len (ws @ a # b # post) = Some (length ws + 2)"
proof -
  from assms(1) have all: "\<forall>x \<in> set ws. is_space x"
    by (simp add: list_all_iff)
  from assms(2) have na: "\<not> is_space a"
    by (rule lower_not_space)
  from all na have "dropWhile is_space (ws @ a # b # post) = a # b # post"
    by (simp add: dropWhile_append3)
  moreover from all na have "takeWhile is_space (ws @ a # b # post) = ws"
    by (simp add: takeWhile_tail)
  ultimately show ?thesis
    using assms(2,3) by (simp add: region_len_def)
qed

lemma match_loc_Some:
  assumes "city \<noteq> []" and "list_all is_loc_char city"
    and "list_all is_space ws" and "is_lower a" and "is_lower b"
  shows "\<exists>g. match_loc (city @ CHR '','' # ws @ a # b # post) = Some g"
proof -
  let ?s = "city @ CHR '','' # ws @ a # b # post"
  let ?n = "length (takeWhile is_loc_char ?s)"
  let ?ok = "\<lambda>j. ?s ! j = CHR '','' \<and> region_len (drop (Suc j) ?s) \<noteq> None"
  from assms(2) have all: "\<forall>x \<in> set city. is_loc_char x"
    by (simp add: list_all_iff)
  have "is_loc_char CHR '',''"
    by (simp add: is_loc_char_def)
  with all have "takeWhile is_loc_char ?s
      = city @ CHR '','' # takeWhile is_loc_char (ws @ a # b # post)"
    by (simp add: takeWhile_append2)
  then have n: "length city < ?n"
    by simp
  from assms(1) have pos: "1 \<le> length city"
    by (cases city) simp_all
  have "?ok (length city)"
    using region_len_Some [OF assms(3-5), of post] by simp
  with n pos have "length city \<in> set (filter ?ok (rev [1..<?n]))"
    by simp
  then have "filter ?ok (rev [1..<?n]) \<noteq> []"
    by (metis empty_iff empty_set)
  then show ?thesis
    by (auto simp: match_loc_def Let_def split: list.splits)
qed

lemma hq_search_Some:
  assumes "match_loc s = Some g" and "lit \<noteq> []"
  shows "\<exists>g'. hq_search lit (pre @ lit @ s) = Some g'"
proof (induction pre)
  case Nil
  from assms(2) obtain c cs where c: "lit @ s = c # cs"
    by (cases lit) auto
  have "prefix lit (c # cs)" "drop (length lit) (c # cs) = s"
    by (simp_all add: c [symmetric])
  then have "hq_search lit (c # cs) = Some g"
    using assms(1) by simp
  then show ?case
    by (simp add: c)
next
  case (Cons x pre)
  then show ?case
    by (auto split: option.splits)
qed

lemma hq_explicit_Some:
  assumes "lit \<in> set pats" and "hq_search lit t = Some g"
  shows "\<exists>r. hq_explicit pats t = Some r"
  using assms by (induction pats) (auto split: option.splits)

lemma hq_explicit_from_pattern:
  "hq_explicit pats t = Some r \<Longrightarrow>
     \<exists>lit g. lit \<in> set pats \<and> hq_search lit t = Some g \<and> r = hq_format g"
  by (induction pats) (auto split: option.splits)

text \<open>
  C8. When the lower-cased text contains the phrase \<^verbatim>\<open>based in\<close>, a city (a non-empty
  run of \<^verbatim>\<open>[a-z ,]\<close>), a comma, optional whitespace and two letters, one of the
  explicit patterns matches, and the resolver returns the formatted group of the first
  explicit pattern that matches. No hypothesis is made on the rest of the text, so this
  holds wherever a hub keyword stands in it: the hub map is consulted only when no
  explicit pattern matches.
\<close>

theorem guess_hq_explicit_phrase_wins:
  assumes "py_lower text = pre @ ''based in '' @ city @ CHR '','' # ws @ a # b # post"
    and "city \<noteq> []" and "list_all is_loc_char city"
    and "list_all is_space ws" and "is_lower a" and "is_lower b"
  shows "\<exists>lit g. lit \<in> set hq_patterns \<and> hq_search lit (py_lower text) = Some g
      \<and> hq_explicit hq_patterns (py_lower text) = Some (hq_format g)
      \<and> guess_hq text = hq_format g"
proof -
  from match_loc_Some [OF assms(2-6)]
  obtain g0 where "match_loc (city @ CHR '','' # ws @ a # b # post) = Some g0"
    by blast
  from hq_search_Some [OF this, of "''based in ''" pre]
  obtain g1 where "hq_search ''based in '' (py_lower text) = Some g1"
    by (auto simp: assms(1))
  moreover have "''based in '' \<in> set hq_patterns"
    by (simp add: hq_patterns_def)
  ultimately obtain r where r: "hq_explicit hq_patterns (py_lower text) = Some r"
    using hq_explicit_Some by blast
  from hq_explicit_from_pattern [OF r]
  obtain lit g where "lit \<in> set hq_patterns" "hq_search lit (py_lower text) = Some g"
    "r = hq_format g"
    by blast
  moreover from r have "guess_hq text = r"
    by (simp add: guess_hq_def)
  ultimately show ?thesis
    using r by blast
qed

theorem guess_hq_explicit_phrase_wins_witness:
  "hub_lookup hub_map (py_lower ''Visit our New York office. Based in Chicago, IL.'')
     = Some ''New York, NY''
   \<and> guess_hq ''Visit our New York office. Based in Chicago, IL.'' = ''Chicago, IL''
   \<and> hq_explicit hq_patterns (py_lower ''Visit our New York office. Based in Chicago, IL.'')
     = Some ''Chicago, IL''
   \<and> hub_lookup hub_map (py_lower ''Based in Chicago, IL. Offices in New York and London.'')
     = Some ''New York, NY''
   \<and> guess_hq ''Based in Chicago, IL. Offices in New York and London.'' = ''Chicago, IL''"
proof -
  let ?text = "''Visit our New York office. Based in Chicago, IL.''"
  have l: "py_lower ?text
      = ''visit our new york office. '' @ ''based in '' @ ''chicago'' @ CHR '','' # '' '' @
        CHR ''i'' # CHR ''l'' # ''.''"
    by code_simp
  have c: "''chicago'' \<noteq> []" "list_all is_loc_char ''chicago''" "list_all is_space '' ''"
    "is_lower CHR ''i''" "is_lower CHR ''l''"
    by code_simp+
  have h: "hub_lookup hub_map (py_lower ?text) = Some ''New York, NY''"
    by code_simp
  have e: "hq_explicit hq_patterns (py_lower ?text) = Some ''Chicago, IL''"
    by code_simp
  from guess_hq_explicit_phrase_wins [OF l c]
  obtain g where "hq_explicit hq_patterns (py_lower ?text) = Some (hq_format g)"
    and "guess_hq ?text = hq_format g"
    by blast
  with e have "guess_hq ?text = ''Chicago, IL''"
    by simp
  moreover have "hub_lookup hub_map (py_lower ''Based in Chicago, IL. Offices in New York and London.'')
     = Some ''New York, NY''"
    by code_simp
  moreover have "guess_hq ''Based in Chicago, IL. Offices in New York and London.'' = ''Chicago, IL''"
    by code_simp
  ultimately show ?thesis
    using h e by simp
qed

section \<open>Properties of the runners\<close>

lemma scan_results_step:
  "scan_results max_rows q (r # rs) st =
     (if skipped r st then scan_results max_rows q rs st
      else if reached max_rows (total_rows (add_result q r (the (res_url r)) st))
        then add_result q r (the (res_url r)) st
        else scan_results max_rows q rs (add_result q r (the (res_url r)) st))"
  by (cases "res_url r") (simp_all add: skipped_def add_result_def Let_def)

lemma skipped_vars: "search_vars st = search_vars st' \<Longrightarrow> skipped r st = skipped r st'"
  by (auto simp: skipped_def search_vars_def split: option.splits)

lemma add_result_vars:
  "search_vars st = search_vars st' \<Longrightarrow>
     search_vars (add_result q r u st) = search_vars (add_result q r u st')"
  by (simp add: add_result_def search_vars_def Let_def)

lemma add_result_queried: "queried (add_result q r u st) = queried st"
  by (simp add: add_result_def Let_def)

lemma vars_total_rows: "search_vars st = search_vars st' \<Longrightarrow> total_rows st = total_rows st'"
  by (simp add: search_vars_def)

lemma scan_results_queried: "queried (scan_results max_rows q rs st) = queried st"
proof (induction rs arbitrary: st)
  case Nil
  then show ?case by simp
next
  case (Cons r rs)
  then show ?case
    by (simp add: scan_results_step add_result_queried del: scan_results.simps)
qed

lemma scan_results_vars:
  "search_vars st = search_vars st' \<Longrightarrow>
     search_vars (scan_results max_rows q rs st) = search_vars (scan_results max_rows q rs st')"
proof (induction rs arbitrary: st st')
  case Nil
  then show ?case by simp
next
  case (Cons r rs)
  let ?a = "add_result q r (the (res_url r)) st" and ?b = "add_result q r (the (res_url r)) st'"
  from Cons.prems have v: "search_vars ?a = search_vars ?b"
    by (rule add_result_vars)
  then have t: "total_rows ?a = total_rows ?b"
    by (rule vars_total_rows)
  from Cons.prems have s: "skipped r st = skipped r st'"
    by (rule skipped_vars)
  show ?case
    using Cons.IH [OF Cons.prems] Cons.IH [OF v] v
    by (simp add: scan_results_step s t del: scan_results.simps)
qed

lemma search_loop_vars:
  "search_vars st = search_vars st' \<Longrightarrow>
     search_vars (search_loop search_web max_rows qs st)
       = search_vars (search_loop search_web max_rows qs st')"
proof (induction qs arbitrary: st st')
  case Nil
  then show ?case by simp
next
  case (Cons q qs)
  let ?a = "st\<lparr>queried := queried st @ [q]\<rparr>" and ?b = "st'\<lparr>queried := queried st' @ [q]\<rparr>"
  from Cons.prems have ab: "search_vars ?a = search_vars ?b"
    by (simp add: search_vars_def)
  show ?case
  proof (cases "search_web q")
    case None
    with Cons.IH [OF ab] show ?thesis by simp
  next
    case (Some results)
    from scan_results_vars [OF ab]
    have sc: "search_vars (scan_results max_rows q results ?a)
        = search_vars (scan_results max_rows q results ?b)" .
    then have "total_rows (scan_results max_rows q results ?a)
        = total_rows (scan_results max_rows q results ?b)"
      by (simp add: search_vars_def)
    with Some sc Cons.IH [OF sc] show ?thesis
      by (simp add: Let_def)
  qed
qed

lemma search_loop_skips_failures:
  "search_vars (search_loop search_web max_rows qs st)
     = search_vars (search_loop search_web max_rows (filter (\<lambda>q. search_web q \<noteq> None) qs) st)"
proof (induction qs arbitrary: st)
  case Nil
  then show ?case by simp
next
  case (Cons q qs)
  show ?case
  proof (cases "search_web q")
    case None
    have "search_vars (st\<lparr>queried := queried st @ [q]\<rparr>) = search_vars st"
      by (simp add: search_vars_def)
    from search_loop_vars [OF this] None Cons [of st] show ?thesis
      by simp
  next
    case (Some results)
    let ?st' = "scan_results max_rows q results (st\<lparr>queried := queried st @ [q]\<rparr>)"
    from Cons [of ?st'] Some show ?thesis
      by (simp add: Let_def)
  qed
qed

lemma reached_no_limit: "max_rows = None \<or> max_rows = Some 0 \<Longrightarrow> \<not> reached max_rows n"
  by (auto simp: reached_def)

lemma search_loop_queried_all:
  assumes "max_rows = None \<or> max_rows = Some 0"
  shows "queried (search_loop search_web max_rows qs st) = queried st @ qs"
proof (induction qs arbitrary: st)
  case Nil
  then show ?case by simp
next
  case (Cons q qs)
  show ?case
  proof (cases "search_web q")
    case None
    with Cons [of "st\<lparr>queried := queried st @ [q]\<rparr>"] show ?thesis
      by simp
  next
    case (Some results)
    let ?st' = "scan_results max_rows q results (st\<lparr>queried := queried st @ [q]\<rparr>)"
    from Cons [of ?st'] Some reached_no_limit [OF assms] show ?thesis
      by (simp add: Let_def scan_results_queried)
  qed
qed

lemma conf_loop_skips_failures:
  assumes "\<not> reached max_rows (int (length all_rows))"
  shows "fst (conf_loop fetch_html max_rows confs (all_rows, started))
    = fst (conf_loop fetch_html max_rows
        (filter (\<lambda>c. scrape_one fetch_html c \<noteq> None) confs) (all_rows, started'))"
  using assms
proof (induction confs arbitrary: all_rows started started')
  case Nil
  then show ?case by simp
next
  case (Cons c confs)
  show ?case
  proof (cases "scrape_one fetch_html c")
    case None
    with Cons.prems Cons.IH [OF Cons.prems, of "started @ [conf_name c]" started'] show ?thesis
      by simp
  next
    case (Some new_rows)
    show ?thesis
    proof (cases "reached max_rows (int (length (all_rows @ new_rows)))")
      case True
      with Some show ?thesis by (simp add: Let_def)
    next
      case False
      from Cons.IH [OF False, of "started @ [conf_name c]" "started' @ [conf_name c]"] False Some
      show ?thesis by (simp add: Let_def)
    qed
  qed
qed

lemma conf_loop_no_limit:
  assumes "max_rows = None \<or> max_rows = Some 0"
  shows "conf_loop fetch_html max_rows confs (all_rows, started)
    = (all_rows @ concat (map (\<lambda>c. case scrape_one fetch_html c of None \<Rightarrow> [] | Some new_rows \<Rightarrow> new_rows) confs),
       started @ map conf_name confs)"
proof (induction confs arbitrary: all_rows started)
  case Nil
  then show ?case by simp
next
  case (Cons c confs)
  show ?case
  proof (cases "scrape_one fetch_html c")
    case None
    with Cons [of all_rows "started @ [conf_name c]"] reached_no_limit [OF assms] show ?thesis
      by simp
  next
    case (Some new_rows)
    with Cons [of "all_rows @ new_rows" "started @ [conf_name c]"] reached_no_limit [OF assms]
    show ?thesis by (simp add: Let_def)
  qed
qed

text \<open>
  C9. A call that fails does not abort a runner. For every list of queries, every
  provider, every limit and every starting state, the rows, the seen domains and the row
  count of the search runner are those of the run over the queries whose call does not
  fail: a failed query contributes nothing, and the queries after it are processed as if
  it were not in the list. With no limit, every query is started, whichever calls fail.
  The same holds for the conference runner, from a state in which the limit is not yet
  reached; with no limit every conference is started and the rows are those of the
  conferences that are scraped successfully, in order.
\<close>

theorem failures_do_not_abort:
  "search_vars (search_loop search_web max_rows qs st)
     = search_vars (search_loop search_web max_rows (filter (\<lambda>q. search_web q \<noteq> None) qs) st)
   \<and> (max_rows = None \<or> max_rows = Some 0 \<longrightarrow>
        queried (search_loop search_web max_rows qs st) = queried st @ qs)
   \<and> (\<not> reached max_rows (int (length all_rows)) \<longrightarrow>
        fst (conf_loop fetch_html max_rows confs (all_rows, started))
          = fst (conf_loop fetch_html max_rows
              (filter (\<lambda>c. scrape_one fetch_html c \<noteq> None) confs) (all_rows, started)))
   \<and> (max_rows = None \<or> max_rows = Some 0 \<longrightarrow>
        conf_loop fetch_html max_rows confs (all_rows, started)
          = (all_rows @ concat (map (\<lambda>c. case scrape_one fetch_html c of
                                            None \<Rightarrow> [] | Some new_rows \<Rightarrow> new_rows) confs),
             started @ map conf_name confs))"
  using search_loop_skips_failures [of search_web max_rows qs st]
    search_loop_queried_all [of max_rows search_web qs st]
    conf_loop_skips_failures [of max_rows all_rows fetch_html confs started started]
    conf_loop_no_limit [of max_rows fetch_html confs all_rows started]
  by blast

theorem failures_do_not_abort_witness:
  "search_web_example ''hedge fund MSP New York'' = None
   \<and> run_search_discovery search_web_example None
     = Some [new_row ''acme.com'' ''https://acme.com'' ''Acme IT''
              ''search:hedge fund IT support NYC'' []]
   \<and> queried (search_loop search_web_example None SEARCH_QUERIES
        \<lparr>seen_domains = {}, search_rows = [], total_rows = 0, queried = []\<rparr>) = SEARCH_QUERIES
   \<and> scrape_one fetch_html_example (hd (conferences parser_example parser_example)) = None
   \<and> conf_loop fetch_html_example None (conferences parser_example parser_example) ([], [])
     = ([new_row ''Gamma'' [] [] ''conf:TradeTech_FX_USA_2025'' ''TradeTech_FX_USA_2025''],
        [''FIA_Expo_2024'', ''TradeTech_FX_USA_2025''])
   \<and> run_conference_scrape fetch_html_example (conferences parser_example parser_example) None
     = Some [new_row ''Gamma'' [] [] ''conf:TradeTech_FX_USA_2025'' ''TradeTech_FX_USA_2025'']"
proof -
  let ?init = "\<lparr>seen_domains = {}, search_rows = [], total_rows = 0, queried = []\<rparr>"
  have a: "search_web_example ''hedge fund MSP New York'' = None"
    by code_simp
  have b: "run_search_discovery search_web_example None
     = Some [new_row ''acme.com'' ''https://acme.com'' ''Acme IT''
              ''search:hedge fund IT support NYC'' []]"
    by code_simp
  have c: "scrape_one fetch_html_example (hd (conferences parser_example parser_example)) = None"
    by code_simp
  have d: "concat (map (\<lambda>c. case scrape_one fetch_html_example c of
                           None \<Rightarrow> [] | Some new_rows \<Rightarrow> new_rows)
                (conferences parser_example parser_example))
      = [new_row ''Gamma'' [] [] ''conf:TradeTech_FX_USA_2025'' ''TradeTech_FX_USA_2025'']"
    by code_simp
  have f: "run_conference_scrape fetch_html_example (conferences parser_example parser_example) None
     = Some [new_row ''Gamma'' [] [] ''conf:TradeTech_FX_USA_2025'' ''TradeTech_FX_USA_2025'']"
    by code_simp
  have e: "map conf_name (conferences parser_example parser_example)
      = [''FIA_Expo_2024'', ''TradeTech_FX_USA_2025'']"
    by (simp add: conferences_def)
  note t = failures_do_not_abort [of search_web_example None SEARCH_QUERIES ?init "[]"
      fetch_html_example "conferences parser_example parser_example" "[]"]
  from t have "queried (search_loop search_web_example None SEARCH_QUERIES ?init) = SEARCH_QUERIES"
    by simp
  moreover from t
  have "conf_loop fetch_html_example None (conferences parser_example parser_example) ([], [])
     = ([new_row ''Gamma'' [] [] ''conf:TradeTech_FX_USA_2025'' ''TradeTech_FX_USA_2025''],
        [''FIA_Expo_2024'', ''TradeTech_FX_USA_2025''])"
    by (simp only: d e) simp
  ultimately show ?thesis
    using a b c f by simp
qed

end
